theory Spec2Isabelle
  imports Complex_Main "HOL-Library.Word" "HOL-Library.Multiset"
begin

section \<open>Data model\<close>

text \<open>
  The usage loader (\<^verbatim>\<open>fileio/usage_loader.go\<close>) and the data manager
  (\<^verbatim>\<open>orchestrator\<close>, type \<^verbatim>\<open>DataManager\<close>) are embedded as functions over
  explicit state. Instants of \<^verbatim>\<open>time.Time\<close> are integers (nanoseconds on one time line),
  so \<^verbatim>\<open>a.Before(b)\<close> is \<open>a < b\<close> and \<^verbatim>\<open>a.After(b)\<close> is \<open>b < a\<close>. Go errors are
  their message strings; a \<^verbatim>\<open>nil\<close> error is \<open>None\<close>, a \<^verbatim>\<open>nil\<close> slice is \<open>[]\<close>.
\<close>

type_synonym path = string

text \<open>A parsed JSON object (\<^verbatim>\<open>map[string]interface{}\<close>), kept opaque as its text.\<close>

type_synonym raw = string

text \<open>\<^verbatim>\<open>models.UsageEntry\<close>: the fields the two source files read or write.\<close>

record UsageEntry =
  Timestamp :: int
  Model :: string
  MessageID :: string
  RequestID :: string
  CostUSD :: real
  Project :: string

text \<open>
  \<^verbatim>\<open>cache.FileSummary\<close>: the fields the loader reads (\<^verbatim>\<open>Path\<close>, \<^verbatim>\<open>ModTime\<close>,
  \<^verbatim>\<open>FileSize\<close>, \<^verbatim>\<open>HasNoAssistantMessages\<close>); its payload is the list of derived entries
  of the spec's data model.
\<close>

record FileSummary =
  Path :: path
  ModTime :: int
  FileSize :: int
  HasNoAssistantMessages :: bool
  SummaryEntries :: "UsageEntry list"

text \<open>
  Modelled from the spec: \<^verbatim>\<open>FileSummary.IsExpired\<close> of package \<^verbatim>\<open>cache\<close>, which is
  not among the source files. The spec: a summary is valid iff its stored (modTime, size)
  equals the file's current (modTime, size).
\<close>

definition IsExpired :: "FileSummary \<Rightarrow> int \<Rightarrow> int \<Rightarrow> bool" where
  "IsExpired s mt sz = (ModTime s \<noteq> mt \<or> FileSize s \<noteq> sz)"

text \<open>
  Modelled from the spec: the summary store behind the interface \<^verbatim>\<open>CacheStore\<close>
  (get, set, invalidate, optional batchSet), whose implementation is not among the source
  files. It keeps one summary per path. \<open>WriteOk\<close> and \<open>InvalidateOk\<close> say whether
  set/batchSet and invalidate succeed; a failing call returns an error and leaves the store
  as it was. \<open>HasBatchSet\<close> says whether the store passes the type assertion for
  \<^verbatim>\<open>BatchSet\<close>.
\<close>

record SummaryStore =
  summaries :: "path \<rightharpoonup> FileSummary"
  HasBatchSet :: bool
  WriteOk :: bool
  InvalidateOk :: bool

definition GetFileSummary :: "SummaryStore \<Rightarrow> path \<Rightarrow> FileSummary option" where
  "GetFileSummary st p = summaries st p"

definition SetFileSummary :: "SummaryStore \<Rightarrow> FileSummary \<Rightarrow> SummaryStore" where
  "SetFileSummary st s =
     (if WriteOk st then st\<lparr>summaries := (summaries st)(Path s \<mapsto> s)\<rparr> else st)"

definition BatchSet :: "SummaryStore \<Rightarrow> FileSummary list \<Rightarrow> SummaryStore" where
  "BatchSet st ss =
     (if WriteOk st then st\<lparr>summaries := foldl (\<lambda>m s. m(Path s \<mapsto> s)) (summaries st) ss\<rparr>
      else st)"

definition InvalidateFileSummary :: "SummaryStore \<Rightarrow> path \<Rightarrow> SummaryStore" where
  "InvalidateFileSummary st p =
     (if InvalidateOk st then st\<lparr>summaries := (summaries st)(p := None)\<rparr> else st)"

text \<open>
  \<^verbatim>\<open>LoadUsageEntriesOptions\<close>. \<^verbatim>\<open>Mode\<close> is left out: neither source file reads it.
  The data path is an argument of the functions that use it. \<open>'p\<close> is the pricing type of
  package \<^verbatim>\<open>models\<close>; a pricing provider maps a model name to a pricing, or fails.
\<close>

record 'p LoadUsageEntriesOptions =
  DataPath :: path
  HoursBack :: "int option"
  IncludeRaw :: bool
  CacheStore :: "SummaryStore option"
  EnableDeduplication :: bool
  PricingProvider :: "(string \<Rightarrow> 'p option) option"

text \<open>
  One line of a log file, by what the loop of \<^verbatim>\<open>processSingleFileWithDedup\<close> finds in it:
  blank after \<^verbatim>\<open>strings.TrimSpace\<close>; rejected by \<^verbatim>\<open>sonic.Unmarshal\<close>; or a JSON object
  \<open>d\<close> together with what \<^verbatim>\<open>extractUsageEntry(d)\<close> returns (\<open>None\<close> when the object
  carries no usage). The JSON library and \<^verbatim>\<open>extractUsageEntry\<close> are outside the source
  files.
\<close>

datatype line = Blank | Invalid string | Object raw "UsageEntry option"

text \<open>
  The result of one file, as \<^verbatim>\<open>processSingleFileWithCacheAndDedup\<close> returns it and as the
  concurrent loader's result records carry it (\<open>fileEntries\<close> and \<open>fileRawEntries\<close> are
  the first two return values).
\<close>

record FileResult =
  fileEntries :: "UsageEntry list"
  fileRawEntries :: "raw list"
  FromCache :: bool
  MissReason :: string
  Error :: "string option"
  Summary :: "FileSummary option"

text \<open>
  \<^verbatim>\<open>models.LimitMessage\<close> and \<^verbatim>\<open>models.SessionBlock\<close>: the fields the data manager reads
  or writes (\<open>LimitTimestamp\<close> is the limit message's \<^verbatim>\<open>Timestamp\<close>).
\<close>

record LimitMessage =
  LimitTimestamp :: int
  LimitContent :: string

record SessionBlock =
  StartTime :: int
  EndTime :: int
  IsActive :: bool
  LimitMessages :: "LimitMessage list"

text \<open>
  Everything the two source files call and do not define: the clock, the file system, and
  functions of this repository and its libraries that are outside the source files. A
  value of this record is one snapshot: the file system does not change during one load.
  \<^item> \<open>os_Stat p\<close> is (modification time, size) of \<open>p\<close>, or \<open>None\<close> when stat fails;
  \<^item> \<open>os_Open p\<close> is the open error, or the lines the scanner yields and the scanner's
    final error (\<^verbatim>\<open>scanner.Err()\<close>);
  \<^item> \<open>filepath_Abs p\<close> is \<open>None\<close> when \<^verbatim>\<open>filepath.Abs\<close> fails;
  \<^item> \<open>filepath_Walk root\<close> lists what \<^verbatim>\<open>filepath.Walk\<close> visits without an error: path,
    is-directory flag, modification time;
  \<^item> the concurrent loader (\<open>LoadFilesWithProgress\<close>, returning its error or the per-file
    results, and the store as its workers leave it) and the two mergers;
  \<^item> the session analyzer's \<open>TransformToBlocks\<close> and \<open>DetectLimits\<close>.
\<close>

record 'p env =
  time_Now :: int
  DiscoverFiles :: "path \<Rightarrow> string + path list"
  os_Stat :: "path \<Rightarrow> (int \<times> int) option"
  os_Open :: "path \<Rightarrow> string + (line list \<times> string option)"
  filepath_Abs :: "path \<Rightarrow> path option"
  filepath_Walk :: "path \<Rightarrow> (path \<times> bool \<times> int) list"
  hasAssistantMessages :: "path \<Rightarrow> bool"
  createEntriesFromSummary :: "FileSummary \<Rightarrow> int option \<Rightarrow> UsageEntry list"
  createEmptySummaryForFile :: "path \<Rightarrow> path \<Rightarrow> FileSummary option"
  createSummaryFromEntries ::
    "path \<Rightarrow> path \<Rightarrow> UsageEntry list \<Rightarrow> int \<times> int \<Rightarrow> FileSummary option"
  GetPricing :: "string \<Rightarrow> 'p"
  CalculateCost :: "UsageEntry \<Rightarrow> 'p \<Rightarrow> real"
  NormalizeModel :: "string \<Rightarrow> string"
  extractProjectFromPath :: "path \<Rightarrow> string"
  LoadFilesWithProgress ::
    "path list \<Rightarrow> 'p LoadUsageEntriesOptions \<Rightarrow>
       (string + FileResult list) \<times> SummaryStore option"
  MergeResults :: "FileResult list \<Rightarrow> UsageEntry list \<times> raw list \<times> string list"
  MergeResultsWithDedup ::
    "FileResult list \<Rightarrow> string set \<Rightarrow> UsageEntry list \<times> raw list \<times> string list"
  TransformToBlocks :: "UsageEntry list \<Rightarrow> SessionBlock list"
  DetectLimits :: "raw list \<Rightarrow> LimitMessage list"

section \<open>The per-file processor\<close>

text \<open>\<^verbatim>\<open>fmt.Sprintf("%s:%s", entry.MessageID, entry.RequestID)\<close>.\<close>

definition dedupKey :: "UsageEntry \<Rightarrow> string" where
  "dedupKey e = MessageID e @ '':'' @ RequestID e"

definition hasBothIDs :: "UsageEntry \<Rightarrow> bool" where
  "hasBothIDs e = (MessageID e \<noteq> [] \<and> RequestID e \<noteq> [])"

text \<open>
  The cost of an entry: the pricing provider's pricing for the entry's model when options and
  a provider are given and the provider succeeds, the default pricing otherwise.
\<close>

definition entryCost :: "'p env \<Rightarrow> 'p LoadUsageEntriesOptions option \<Rightarrow> UsageEntry \<Rightarrow> real" where
  "entryCost E opts entry =
     (case opts of
        None \<Rightarrow> CalculateCost E entry (GetPricing E (Model entry))
      | Some os \<Rightarrow>
          (case PricingProvider os of
             None \<Rightarrow> CalculateCost E entry (GetPricing E (Model entry))
           | Some provider \<Rightarrow>
               (case provider (Model entry) of
                  None \<Rightarrow> CalculateCost E entry (GetPricing E (Model entry))
                | Some pricing \<Rightarrow> CalculateCost E entry pricing)))"

text \<open>
  What the loop does to an entry it keeps: cost, then \<^verbatim>\<open>NormalizeModel\<close> on the model name,
  then the project of the file's path.
\<close>

definition finishEntry ::
  "'p env \<Rightarrow> path \<Rightarrow> 'p LoadUsageEntriesOptions option \<Rightarrow> UsageEntry \<Rightarrow> UsageEntry" where
  "finishEntry E filePath opts entry =
     entry\<lparr>CostUSD := entryCost E opts entry,
           Model := NormalizeModel E (Model entry),
           Project := extractProjectFromPath E filePath\<rparr>"

text \<open>
  One iteration of the scanner loop. The loop state is (entries, rawEntries, deduplication
  set); the set is \<open>None\<close> for a \<^verbatim>\<open>nil\<close> map. The line counters of the source only feed
  log messages and are left out.
\<close>

fun scanLine ::
  "'p env \<Rightarrow> path \<Rightarrow> int option \<Rightarrow> bool \<Rightarrow> 'p LoadUsageEntriesOptions option \<Rightarrow>
   UsageEntry list \<times> raw list \<times> string set option \<Rightarrow> line \<Rightarrow>
   UsageEntry list \<times> raw list \<times> string set option" where
  "scanLine E filePath cutoffTime includeRaw opts (entries, rawEntries, dd) Blank =
     (entries, rawEntries, dd)"
| "scanLine E filePath cutoffTime includeRaw opts (entries, rawEntries, dd) (Invalid msg) =
     (entries, rawEntries, dd)"
| "scanLine E filePath cutoffTime includeRaw opts (entries, rawEntries, dd) (Object d u) =
     (let rawEntries' = (if includeRaw then rawEntries @ [d] else rawEntries) in
      case u of
        None \<Rightarrow> (entries, rawEntries', dd)
      | Some entry \<Rightarrow>
          if (case cutoffTime of None \<Rightarrow> False | Some c \<Rightarrow> Timestamp entry < c)
          then (entries, rawEntries', dd)
          else
            (case dd of
               None \<Rightarrow> (entries @ [finishEntry E filePath opts entry], rawEntries', None)
             | Some seen \<Rightarrow>
                 if hasBothIDs entry then
                   (if dedupKey entry \<in> seen then (entries, rawEntries', Some seen)
                    else (entries @ [finishEntry E filePath opts entry], rawEntries',
                          Some (insert (dedupKey entry) seen)))
                 else (entries @ [finishEntry E filePath opts entry], rawEntries', Some seen)))"

text \<open>
  \<^verbatim>\<open>processSingleFileWithDedup\<close>: (entries, rawEntries, err), and the deduplication set as
  the call leaves it (the Go map is mutated in place).
\<close>

definition processSingleFileWithDedup ::
  "'p env \<Rightarrow> path \<Rightarrow> int option \<Rightarrow> bool \<Rightarrow> string set option \<Rightarrow>
   'p LoadUsageEntriesOptions option \<Rightarrow>
   (UsageEntry list \<times> raw list \<times> string option) \<times> string set option" where
  "processSingleFileWithDedup E filePath cutoffTime includeRaw dd opts =
     (case os_Open E filePath of
        Inl e \<Rightarrow> (([], [], Some (''failed to open file: '' @ e)), dd)
      | Inr (ls, scanErr) \<Rightarrow>
          (case foldl (scanLine E filePath cutoffTime includeRaw opts) ([], [], dd) ls of
             (entries, rawEntries, dd') \<Rightarrow>
               (case scanErr of
                  Some e \<Rightarrow> (([], [], Some (''error reading file: '' @ e)), dd')
                | None \<Rightarrow> ((entries, rawEntries, None), dd'))))"

text \<open>\<^verbatim>\<open>processSingleFile\<close>: no deduplication set, no options.\<close>

definition processSingleFile ::
  "'p env \<Rightarrow> path \<Rightarrow> int option \<Rightarrow> bool \<Rightarrow> UsageEntry list \<times> raw list \<times> string option" where
  "processSingleFile E filePath cutoffTime includeRaw =
     fst (processSingleFileWithDedup E filePath cutoffTime includeRaw None None)"

section \<open>The cache-aware wrapper\<close>

definition absPathOf :: "'p env \<Rightarrow> path \<Rightarrow> path" where
  "absPathOf E filePath = (case filepath_Abs E filePath of None \<Rightarrow> filePath | Some a \<Rightarrow> a)"

text \<open>
  The tail of \<^verbatim>\<open>processSingleFileWithCacheAndDedup\<close>, from ``Determine miss reason'' on:
  the miss reason is read off a second lookup in the store, then the file is parsed, and a
  summary is built when a store is configured and the parse produced entries.
\<close>

definition processUncached ::
  "'p env \<Rightarrow> path \<Rightarrow> 'p LoadUsageEntriesOptions \<Rightarrow> int option \<Rightarrow> string set option \<Rightarrow>
   FileResult \<times> string set option" where
  "processUncached E filePath opts cutoffTime dd =
     (let absPath = absPathOf E filePath;
          missReason =
            (case CacheStore opts of
               None \<Rightarrow> ''other''
             | Some st \<Rightarrow>
                 (case GetFileSummary st absPath of
                    None \<Rightarrow> ''new_file''
                  | Some s \<Rightarrow> ''modified_file''))
      in case processSingleFileWithDedup E filePath cutoffTime (IncludeRaw opts) dd (Some opts) of
           ((entries, rawEntries, err), dd') \<Rightarrow>
             (case err of
                Some e \<Rightarrow>
                  (\<lparr>fileEntries = entries, fileRawEntries = rawEntries, FromCache = False,
                    MissReason = missReason, Error = Some e, Summary = None\<rparr>, dd')
              | None \<Rightarrow>
                  (\<lparr>fileEntries = entries, fileRawEntries = rawEntries, FromCache = False,
                    MissReason = missReason, Error = None,
                    Summary =
                      (if CacheStore opts \<noteq> None \<and> entries \<noteq> [] then
                         (case os_Stat E filePath of
                            None \<Rightarrow> None
                          | Some fileInfo \<Rightarrow>
                              createSummaryFromEntries E absPath filePath entries fileInfo)
                       else None)\<rparr>, dd')))"

text \<open>
  After the lookup missed or the summary was invalidated (\<open>st\<close> is the store at that point):
  a file without assistant messages gets an empty summary and is not parsed; any other file
  goes to \<open>processUncached\<close>.
\<close>

definition processAfterMiss ::
  "'p env \<Rightarrow> path \<Rightarrow> 'p LoadUsageEntriesOptions \<Rightarrow> int option \<Rightarrow> string set option \<Rightarrow>
   SummaryStore \<Rightarrow> FileResult \<times> SummaryStore option \<times> string set option" where
  "processAfterMiss E filePath opts cutoffTime dd st =
     (if \<not> hasAssistantMessages E filePath then
        (\<lparr>fileEntries = [], fileRawEntries = [], FromCache = False,
          MissReason = ''no_assistant_messages'', Error = None,
          Summary = createEmptySummaryForFile E (absPathOf E filePath) filePath\<rparr>,
         Some st, dd)
      else
        (case processUncached E filePath (opts\<lparr>CacheStore := Some st\<rparr>) cutoffTime dd of
           (r, dd') \<Rightarrow> (r, Some st, dd')))"

text \<open>
  \<^verbatim>\<open>processSingleFileWithCacheAndDedup\<close>: the six return values as a \<open>FileResult\<close>, the store
  and the deduplication set as the call leaves them.
\<close>

definition processSingleFileWithCacheAndDedup ::
  "'p env \<Rightarrow> path \<Rightarrow> 'p LoadUsageEntriesOptions \<Rightarrow> int option \<Rightarrow> string set option \<Rightarrow>
   FileResult \<times> SummaryStore option \<times> string set option" where
  "processSingleFileWithCacheAndDedup E filePath opts cutoffTime dd =
     (case CacheStore opts of
        None \<Rightarrow>
          (case processUncached E filePath opts cutoffTime dd of (r, dd') \<Rightarrow> (r, None, dd'))
      | Some st \<Rightarrow>
          (case os_Stat E filePath of
             None \<Rightarrow>
               (case processSingleFile E filePath cutoffTime (IncludeRaw opts) of
                  (entries, rawEntries, err) \<Rightarrow>
                    (\<lparr>fileEntries = entries, fileRawEntries = rawEntries, FromCache = False,
                      MissReason = ''new_file'', Error = err, Summary = None\<rparr>, Some st, dd))
           | Some (modTime, fileSize) \<Rightarrow>
               (case GetFileSummary st (absPathOf E filePath) of
                  Some cachedSummary \<Rightarrow>
                    if \<not> IsExpired cachedSummary modTime fileSize then
                      (if HasNoAssistantMessages cachedSummary then
                         (\<lparr>fileEntries = [], fileRawEntries = [], FromCache = True,
                           MissReason = [], Error = None, Summary = None\<rparr>, Some st, dd)
                       else
                         (\<lparr>fileEntries = createEntriesFromSummary E cachedSummary cutoffTime,
                           fileRawEntries = [], FromCache = True,
                           MissReason = [], Error = None, Summary = None\<rparr>, Some st, dd))
                    else
                      processAfterMiss E filePath opts cutoffTime dd
                        (InvalidateFileSummary st (absPathOf E filePath))
                | None \<Rightarrow> processAfterMiss E filePath opts cutoffTime dd st)))"

section \<open>The usage loader\<close>

record CachePerformanceStats =
  Hits :: int
  Misses :: int
  HitRate :: real
  NewFiles :: int
  ModifiedFiles :: int
  NoAssistantMessages :: int
  OtherMisses :: int

text \<open>
  \<^verbatim>\<open>LoadMetadata\<close>; \<^verbatim>\<open>LoadDuration\<close> (wall-clock time of the call) is left out and
  \<^verbatim>\<open>EntriesFiltered\<close> is never assigned. The Go map of miss reasons is a function that is
  \<open>0\<close> where the map has no key.
\<close>

record LoadMetadata =
  FilesProcessed :: int
  EntriesLoaded :: int
  ProcessingErrors :: "string list"
  CacheMissReasons :: "string \<Rightarrow> int"
  CacheStats :: CachePerformanceStats

record LoadUsageEntriesResult =
  Entries :: "UsageEntry list"
  RawEntries :: "raw list"
  Metadata :: LoadMetadata

text \<open>The local variables of \<^verbatim>\<open>LoadUsageEntries\<close> that its loops update, and the store.\<close>

record LoadState =
  allEntries :: "UsageEntry list"
  allRawEntries :: "raw list"
  processingErrors :: "string list"
  cacheHits :: int
  cacheMisses :: int
  cacheMissReasons :: "string \<Rightarrow> int"
  summariesToCache :: "FileSummary list"
  deduplicationSet :: "string set option"
  store :: "SummaryStore option"

definition initialLoadState :: "'p LoadUsageEntriesOptions \<Rightarrow> LoadState" where
  "initialLoadState opts =
     \<lparr>allEntries = [], allRawEntries = [], processingErrors = [],
      cacheHits = 0, cacheMisses = 0, cacheMissReasons = (\<lambda>k. 0),
      summariesToCache = [],
      deduplicationSet = (if EnableDeduplication opts then Some {} else None),
      store = CacheStore opts\<rparr>"

text \<open>The hit/miss counters, as both branches of \<^verbatim>\<open>LoadUsageEntries\<close> update them.\<close>

definition countResult :: "bool \<Rightarrow> string \<Rightarrow> LoadState \<Rightarrow> LoadState" where
  "countResult fromCache missReason S =
     (if fromCache then S\<lparr>cacheHits := cacheHits S + 1\<rparr>
      else if missReason \<noteq> [] then
        S\<lparr>cacheMisses := cacheMisses S + 1,
          cacheMissReasons := (cacheMissReasons S)(missReason := cacheMissReasons S missReason + 1)\<rparr>
      else S\<lparr>cacheMisses := cacheMisses S + 1\<rparr>)"

definition collectSummary :: "FileSummary option \<Rightarrow> LoadState \<Rightarrow> LoadState" where
  "collectSummary summary S =
     (case summary of
        None \<Rightarrow> S
      | Some s \<Rightarrow> S\<lparr>summariesToCache := summariesToCache S @ [s]\<rparr>)"

text \<open>\<^verbatim>\<open>time.Now().UTC().Add(-time.Duration(*opts.HoursBack) * time.Hour)\<close>, the product in
  64-bit two's complement as \<^verbatim>\<open>time.Duration\<close> computes it.\<close>

definition cutoffTimeOf :: "'p env \<Rightarrow> 'p LoadUsageEntriesOptions \<Rightarrow> int option" where
  "cutoffTimeOf E opts =
     (case HoursBack opts of
        None \<Rightarrow> None
      | Some h \<Rightarrow>
          Some (time_Now E + sint ((- (word_of_int h :: 64 word)) * 3600000000000)))"

text \<open>One iteration of the sequential loop over the discovered files.\<close>

definition sequentialStep ::
  "'p env \<Rightarrow> 'p LoadUsageEntriesOptions \<Rightarrow> int option \<Rightarrow> LoadState \<Rightarrow> path \<Rightarrow> LoadState" where
  "sequentialStep E opts cutoffTime S filePath =
     (case processSingleFileWithCacheAndDedup E filePath (opts\<lparr>CacheStore := store S\<rparr>)
             cutoffTime (deduplicationSet S) of
        (r, st', dd') \<Rightarrow>
          (let S1 = S\<lparr>store := st', deduplicationSet := dd'\<rparr> in
           case Error r of
             Some err \<Rightarrow> S1\<lparr>processingErrors := processingErrors S1 @ [filePath @ '': '' @ err]\<rparr>
           | None \<Rightarrow>
               (let S2 = countResult (FromCache r) (MissReason r) S1;
                    S3 = S2\<lparr>allEntries := allEntries S2 @ fileEntries r\<rparr>;
                    S4 = (if IncludeRaw opts \<and> fileRawEntries r \<noteq> []
                          then S3\<lparr>allRawEntries := allRawEntries S3 @ fileRawEntries r\<rparr>
                          else S3)
                in collectSummary (Summary r) S4)))"

definition loadSequential ::
  "'p env \<Rightarrow> 'p LoadUsageEntriesOptions \<Rightarrow> path list \<Rightarrow> LoadState" where
  "loadSequential E opts jsonlFiles =
     foldl (sequentialStep E opts (cutoffTimeOf E opts)) (initialLoadState opts) jsonlFiles"

text \<open>The statistics loop of the concurrent branch, one result record at a time.\<close>

definition concurrentStat :: "LoadState \<Rightarrow> FileResult \<Rightarrow> LoadState" where
  "concurrentStat S r =
     (case Error r of
        Some err \<Rightarrow> S
      | None \<Rightarrow> collectSummary (Summary r) (countResult (FromCache r) (MissReason r) S))"

text \<open>
  The concurrent branch: the loader's error (and the store as the loader left it), or the
  state after merge and statistics.
\<close>

definition loadConcurrent ::
  "'p env \<Rightarrow> 'p LoadUsageEntriesOptions \<Rightarrow> path list \<Rightarrow>
   (string \<times> SummaryStore option) + LoadState" where
  "loadConcurrent E opts jsonlFiles =
     (case LoadFilesWithProgress E jsonlFiles opts of
        (Inl err, st') \<Rightarrow> Inl (''concurrent loading failed: '' @ err, st')
      | (Inr results, st') \<Rightarrow>
          (case (if EnableDeduplication opts then MergeResultsWithDedup E results {}
                 else MergeResults E results) of
             (es, raws, mergeErrors) \<Rightarrow>
               Inr (foldl concurrentStat
                     ((initialLoadState opts)\<lparr>allEntries := es, allRawEntries := raws,
                        processingErrors := mergeErrors, store := st'\<rparr>)
                     results)))"

text \<open>
  The batch write at the end of a load: nothing without summaries or without a store, one
  \<^verbatim>\<open>BatchSet\<close> when the store has it, one \<^verbatim>\<open>SetFileSummary\<close> per summary otherwise.
\<close>

definition writeSummaries :: "FileSummary list \<Rightarrow> SummaryStore option \<Rightarrow> SummaryStore option" where
  "writeSummaries ss sto =
     (case sto of
        None \<Rightarrow> None
      | Some st \<Rightarrow>
          if ss = [] then Some st
          else if HasBatchSet st then Some (BatchSet st ss)
          else Some (foldl SetFileSummary st ss))"

text \<open>
  The end of \<^verbatim>\<open>LoadUsageEntries\<close>: sort by timestamp, write the summaries, build the result.
  \<^verbatim>\<open>sort.Slice\<close> with \<^verbatim>\<open>Before\<close> as the order is modelled by \<open>sort_key Timestamp\<close>;
  Go does not fix the order of entries with equal timestamps, the model keeps their order.
\<close>

definition finishLoad ::
  "path list \<Rightarrow> LoadState \<Rightarrow> LoadUsageEntriesResult \<times> SummaryStore option" where
  "finishLoad jsonlFiles S =
     (let sorted_entries = sort_key Timestamp (allEntries S);
          totalRequests = cacheHits S + cacheMisses S;
          hitRate = (if totalRequests > 0 then real_of_int (cacheHits S) / real_of_int totalRequests
                     else 0)
      in (\<lparr>Entries = sorted_entries,
           RawEntries = allRawEntries S,
           Metadata =
             \<lparr>FilesProcessed = int (length jsonlFiles),
              EntriesLoaded = int (length sorted_entries),
              ProcessingErrors = processingErrors S,
              CacheMissReasons = cacheMissReasons S,
              CacheStats =
                \<lparr>Hits = cacheHits S, Misses = cacheMisses S, HitRate = hitRate,
                 NewFiles = cacheMissReasons S ''new_file'',
                 ModifiedFiles = cacheMissReasons S ''modified_file'',
                 NoAssistantMessages = cacheMissReasons S ''no_assistant_messages'',
                 OtherMisses = cacheMissReasons S ''other''\<rparr>\<rparr>\<rparr>,
          writeSummaries (summariesToCache S) (store S)))"

text \<open>
  \<^verbatim>\<open>LoadUsageEntries\<close>: the error or the result, and the store as the call leaves it.
\<close>

definition LoadUsageEntries ::
  "'p env \<Rightarrow> 'p LoadUsageEntriesOptions \<Rightarrow>
   (string + LoadUsageEntriesResult) \<times> SummaryStore option" where
  "LoadUsageEntries E opts =
     (case DiscoverFiles E (DataPath opts) of
        Inl err \<Rightarrow> (Inl (''failed to find JSONL files: '' @ err), CacheStore opts)
      | Inr jsonlFiles \<Rightarrow>
          if length jsonlFiles > 10 then
            (case loadConcurrent E opts jsonlFiles of
               Inl (err, st') \<Rightarrow> (Inl err, st')
             | Inr S \<Rightarrow> (case finishLoad jsonlFiles S of (r, st') \<Rightarrow> (Inr r, st')))
          else
            (case finishLoad jsonlFiles (loadSequential E opts jsonlFiles) of
               (r, st') \<Rightarrow> (Inr r, st')))"

section \<open>The data manager\<close>

record AnalysisMetadata =
  GeneratedAt :: int
  HoursAnalyzed :: int
  EntriesProcessed :: int
  BlocksCreated :: int
  LimitsDetected :: int
  CacheUsed :: bool
  QuickStart :: bool

text \<open>
  \<^verbatim>\<open>AnalysisResult\<close> (\<open>ResultMetadata\<close> is its field \<^verbatim>\<open>Metadata\<close>). The two timing fields of
  the metadata are left out; \<open>HoursAnalyzed\<close> is the number the source prints with
  \<^verbatim>\<open>%d\<close>.
\<close>

record AnalysisResult =
  Blocks :: "SessionBlock list"
  ResultMetadata :: AnalysisMetadata

text \<open>\<^verbatim>\<open>FileTracker\<close> (\<open>TrackerPath\<close> is its field \<^verbatim>\<open>Path\<close>); a zero \<^verbatim>\<open>time.Time\<close> is
  \<open>None\<close>.\<close>

record FileTracker =
  TrackerPath :: path
  LastModTime :: int
  LastCacheUpdate :: "int option"
  InSessionWindow :: bool

text \<open>
  \<^verbatim>\<open>DataManager\<close>, without its locks and the background ticker: the model is one caller's
  sequence of calls.
\<close>

record 'p DataManager =
  hoursBack :: int
  dataPath :: path
  cache :: "AnalysisResult option"
  cacheTimestamp :: "int option"
  lastError :: "string option"
  lastSuccessfulFetch :: "int option"
  cacheStore :: "SummaryStore option"
  initialLoadCompleted :: bool
  pricingProvider :: "(string \<Rightarrow> 'p option) option"
  enableDeduplication :: bool
  activeSessionFiles :: "path \<rightharpoonup> FileTracker"

definition isLimitInBlockTimerange :: "LimitMessage \<Rightarrow> SessionBlock \<Rightarrow> bool" where
  "isLimitInBlockTimerange limit block =
     ((StartTime block < LimitTimestamp limit \<or> LimitTimestamp limit = StartTime block) \<and>
      (LimitTimestamp limit < EndTime block \<or> LimitTimestamp limit = EndTime block))"

text \<open>\<^verbatim>\<open>5*time.Hour\<close> and \<^verbatim>\<open>30*time.Minute\<close> in nanoseconds.\<close>

definition fiveHours :: int where
  "fiveHours = 5 * 3600000000000"

definition thirtyMinutes :: int where
  "thirtyMinutes = 30 * 60000000000"

text \<open>
  The test of the first loop of \<^verbatim>\<open>updateSessionWindowFiles\<close>. \<^verbatim>\<open>now.Sub\<close> saturates at
  the ends of \<^verbatim>\<open>time.Duration\<close>, which does not change a comparison with five hours.
\<close>

definition isActiveBlock :: "int \<Rightarrow> SessionBlock \<Rightarrow> bool" where
  "isActiveBlock now block = (IsActive block \<or> now - EndTime block < fiveHours)"

text \<open>The test of the inner loop: strictly after the start, strictly before end + 30 min.\<close>

definition modTimeInWindow :: "int \<Rightarrow> SessionBlock \<Rightarrow> bool" where
  "modTimeInWindow modTime block =
     (StartTime block < modTime \<and> modTime < EndTime block + thirtyMinutes)"

text \<open>One iteration of the loop over the discovered files.\<close>

definition markFile ::
  "'p env \<Rightarrow> SessionBlock list \<Rightarrow> (path \<rightharpoonup> FileTracker) \<Rightarrow> path \<Rightarrow> (path \<rightharpoonup> FileTracker)" where
  "markFile E activeBlocks trackers file =
     (case os_Stat E file of
        None \<Rightarrow> trackers
      | Some (modTime, fileSize) \<Rightarrow>
          if list_ex (modTimeInWindow modTime) activeBlocks then
            (case trackers file of
               Some tracker \<Rightarrow>
                 trackers(file \<mapsto> tracker\<lparr>InSessionWindow := True, LastModTime := modTime\<rparr>)
             | None \<Rightarrow>
                 trackers(file \<mapsto> \<lparr>TrackerPath = file, LastModTime = modTime,
                                    LastCacheUpdate = None, InSessionWindow = True\<rparr>))
          else trackers)"

definition updateSessionWindowFiles ::
  "'p env \<Rightarrow> 'p DataManager \<Rightarrow> SessionBlock list \<Rightarrow> 'p DataManager" where
  "updateSessionWindowFiles E dm blocks =
     (let activeBlocks = filter (isActiveBlock (time_Now E)) blocks;
          cleared = (\<lambda>p. map_option (\<lambda>tracker. tracker\<lparr>InSessionWindow := False\<rparr>)
                           (activeSessionFiles dm p))
      in case DiscoverFiles E (dataPath dm) of
           Inl err \<Rightarrow> dm\<lparr>activeSessionFiles := cleared\<rparr>
         | Inr files \<Rightarrow>
             dm\<lparr>activeSessionFiles := foldl (markFile E activeBlocks) cleared files\<rparr>)"

text \<open>
  \<^verbatim>\<open>processUsageData\<close>: (result, error) and the manager with its trackers updated. The
  \<^verbatim>\<open>nil\<close> test on the raw entries is the test for the empty list.
\<close>

definition attachLimits :: "LimitMessage list \<Rightarrow> SessionBlock \<Rightarrow> SessionBlock" where
  "attachLimits limitDetections block =
     (let blockLimits = filter (\<lambda>limit. isLimitInBlockTimerange limit block) limitDetections
      in if blockLimits \<noteq> [] then block\<lparr>LimitMessages := blockLimits\<rparr> else block)"

definition processUsageData ::
  "'p env \<Rightarrow> 'p DataManager \<Rightarrow> LoadUsageEntriesResult \<Rightarrow>
   (AnalysisResult option \<times> string option) \<times> 'p DataManager" where
  "processUsageData E dm result =
     (if Entries result = [] then ((None, Some ''no usage entries found''), dm)
      else
        (let blocks0 = TransformToBlocks E (Entries result);
             limitDetections =
               (if RawEntries result \<noteq> [] then DetectLimits E (RawEntries result) else []);
             blocks =
               (if RawEntries result \<noteq> [] then map (attachLimits limitDetections) blocks0
                else blocks0);
             metadata =
               \<lparr>GeneratedAt = time_Now E, HoursAnalyzed = hoursBack dm,
                EntriesProcessed = int (length (Entries result)),
                BlocksCreated = int (length blocks),
                LimitsDetected = int (length limitDetections),
                CacheUsed = False, QuickStart = False\<rparr>
         in ((Some \<lparr>Blocks = blocks, ResultMetadata = metadata\<rparr>, None),
             updateSessionWindowFiles E dm blocks)))"

text \<open>The options both \<^verbatim>\<open>analyzeUsageWatchMode\<close> and the full initial load build.\<close>

definition loadOptions :: "'p DataManager \<Rightarrow> 'p LoadUsageEntriesOptions" where
  "loadOptions dm =
     \<lparr>DataPath = dataPath dm, HoursBack = Some (hoursBack dm), IncludeRaw = True,
      CacheStore = cacheStore dm, EnableDeduplication = enableDeduplication dm,
      PricingProvider = pricingProvider dm\<rparr>"

definition analyzeUsageWatchMode ::
  "'p env \<Rightarrow> 'p DataManager \<Rightarrow> (AnalysisResult option \<times> string option) \<times> 'p DataManager" where
  "analyzeUsageWatchMode E dm =
     (case LoadUsageEntries E (loadOptions dm) of
        (Inl err, st') \<Rightarrow>
          ((None, Some (''failed to load usage entries: '' @ err)), dm\<lparr>cacheStore := st'\<rparr>)
      | (Inr result, st') \<Rightarrow> processUsageData E (dm\<lparr>cacheStore := st'\<rparr>) result)"

text \<open>\<^verbatim>\<open>filepath.Ext\<close>: the suffix from the last dot of the last path element, or empty.\<close>

fun extFrom :: "string \<Rightarrow> string \<Rightarrow> string" where
  "extFrom acc [] = []"
| "extFrom acc (c # cs) =
     (if c = CHR ''/'' then []
      else if c = CHR ''.'' then c # acc
      else extFrom (c # acc) cs)"

definition filepath_Ext :: "path \<Rightarrow> string" where
  "filepath_Ext p = extFrom [] (rev p)"

definition oneMinute :: int where
  "oneMinute = 60000000000"

text \<open>
  \<^verbatim>\<open>checkForFileChanges\<close>: whether the walk meets a \<^verbatim>\<open>.jsonl\<close> file modified after one
  minute ago. The walk function returns only \<^verbatim>\<open>nil\<close> or \<^verbatim>\<open>filepath.SkipDir\<close>, so
  \<^verbatim>\<open>filepath.Walk\<close> returns no error and the error branch of the source is never taken.
\<close>

definition checkForFileChanges :: "'p env \<Rightarrow> 'p DataManager \<Rightarrow> bool" where
  "checkForFileChanges E dm =
     list_ex (\<lambda>(p, isDir, modTime).
                \<not> isDir \<and> filepath_Ext p = ''.jsonl'' \<and> time_Now E - oneMinute < modTime)
       (filepath_Walk E (dataPath dm))"

text \<open>The publication of a result: the same five assignments at each place of the source.\<close>

definition publish ::
  "'p env \<Rightarrow> AnalysisResult option \<Rightarrow> 'p DataManager \<Rightarrow> 'p DataManager" where
  "publish E data dm =
     dm\<lparr>cache := data, cacheTimestamp := Some (time_Now E),
        lastSuccessfulFetch := Some (time_Now E), lastError := None\<rparr>"

text \<open>The second half of \<^verbatim>\<open>performInitialLoad\<close>: the full load.\<close>

definition initialFullLoad ::
  "'p env \<Rightarrow> 'p DataManager \<Rightarrow> (AnalysisResult option \<times> string option) \<times> 'p DataManager" where
  "initialFullLoad E dm =
     (case LoadUsageEntries E (loadOptions dm) of
        (Inl err, st') \<Rightarrow>
          ((None, Some (''failed to load usage entries: '' @ err)), dm\<lparr>cacheStore := st'\<rparr>)
      | (Inr result, st') \<Rightarrow>
          (case processUsageData E (dm\<lparr>cacheStore := st'\<rparr>) result of
             ((data, Some err), dm') \<Rightarrow> ((None, Some err), dm')
           | ((data, None), dm') \<Rightarrow>
               ((data, None), (publish E data dm')\<lparr>initialLoadCompleted := True\<rparr>)))"

definition performInitialLoad ::
  "'p env \<Rightarrow> 'p DataManager \<Rightarrow> (AnalysisResult option \<times> string option) \<times> 'p DataManager" where
  "performInitialLoad E dm =
     (if cacheStore dm \<noteq> None then
        (case LoadUsageEntries E (loadOptions dm) of
           (Inl err, st') \<Rightarrow> initialFullLoad E (dm\<lparr>cacheStore := st'\<rparr>)
         | (Inr resultCache, st') \<Rightarrow>
             if Entries resultCache \<noteq> [] \<and> \<not> checkForFileChanges E dm then
               (case processUsageData E (dm\<lparr>cacheStore := st'\<rparr>) resultCache of
                  ((data, Some err), dm') \<Rightarrow> ((None, Some err), dm')
                | ((data, None), dm') \<Rightarrow>
                    ((data, None), (publish E data dm')\<lparr>initialLoadCompleted := True\<rparr>))
             else initialFullLoad E (dm\<lparr>cacheStore := st'\<rparr>))
      else initialFullLoad E dm)"

text \<open>
  \<^verbatim>\<open>time.Duration(100*(1<<attempt)) * time.Millisecond\<close>, in nanoseconds.
\<close>

definition backoff :: "nat \<Rightarrow> int" where
  "backoff attempt = (100 * push_bit attempt 1) * 1000000"

definition maxRetries :: nat where
  "maxRetries = 3"

text \<open>
  The retry loop of \<^verbatim>\<open>GetData\<close>. \<open>Es attempt\<close> is the environment in which attempt number
  \<open>attempt\<close> runs (the files may change between attempts); \<open>sleeps\<close> collects the arguments
  of \<^verbatim>\<open>time.Sleep\<close> in call order. The result is (result, error), the manager and the
  sleeps.
\<close>

function watchLoop ::
  "(nat \<Rightarrow> 'p env) \<Rightarrow> nat \<Rightarrow> 'p DataManager \<Rightarrow> int list \<Rightarrow>
   (AnalysisResult option \<times> string option) \<times> 'p DataManager \<times> int list" where
  "watchLoop Es attempt dm sleeps =
     (if attempt < maxRetries then
        (case analyzeUsageWatchMode (Es attempt) dm of
           ((data, Some err), dm') \<Rightarrow>
             if attempt < maxRetries - 1 then
               watchLoop Es (attempt + 1) (dm'\<lparr>lastError := Some err\<rparr>)
                 (sleeps @ [backoff attempt])
             else
               (case cache dm' of
                  Some result \<Rightarrow> ((Some result, None), dm'\<lparr>lastError := Some err\<rparr>, sleeps)
                | None \<Rightarrow>
                    ((None, Some (''failed to get usage data after 3 attempts: '' @ err)),
                     dm'\<lparr>lastError := Some err\<rparr>, sleeps))
         | ((data, None), dm') \<Rightarrow> ((data, None), publish (Es attempt) data dm', sleeps))
      else ((None, Some ''unexpected error in data fetching loop''), dm, sleeps))"
  by pat_completeness auto
termination
  by (relation "measure (\<lambda>(Es, attempt, dm, sleeps). maxRetries - attempt)") auto

declare watchLoop.simps [simp del]

text \<open>
  \<^verbatim>\<open>GetData\<close>: the first call is the initial load (in \<open>Es 0\<close>); later calls return the
  published result, or run the retry loop when a refresh is forced.
\<close>

definition GetData ::
  "(nat \<Rightarrow> 'p env) \<Rightarrow> 'p DataManager \<Rightarrow> bool \<Rightarrow>
   (AnalysisResult option \<times> string option) \<times> 'p DataManager \<times> int list" where
  "GetData Es dm forceRefresh =
     (if \<not> initialLoadCompleted dm then
        (case performInitialLoad (Es 0) dm of (r, dm') \<Rightarrow> (r, dm', []))
      else if \<not> forceRefresh then ((cache dm, None), dm, [])
      else watchLoop Es 0 dm [])"

section \<open>The concurrent loader and the mergers, from the spec\<close>

text \<open>
  \<^verbatim>\<open>processSingleFileWithCacheWithReason\<close>: the wrapper called with a \<^verbatim>\<open>nil\<close>
  deduplication set.
\<close>

definition processSingleFileWithCacheWithReason ::
  "'p env \<Rightarrow> path \<Rightarrow> 'p LoadUsageEntriesOptions \<Rightarrow> int option \<Rightarrow>
   FileResult \<times> SummaryStore option" where
  "processSingleFileWithCacheWithReason E filePath opts cutoffTime =
     (case processSingleFileWithCacheAndDedup E filePath opts cutoffTime None of
        (r, st', dd') \<Rightarrow> (r, st'))"

text \<open>
  Modelled from the spec: the Concurrent Loader (\<^verbatim>\<open>NewConcurrentLoader\<close>,
  \<^verbatim>\<open>LoadFilesWithProgress\<close>), which is not among the source files. The spec: the pool
  ``invokes 4.2 per file and returns one result record per file (entries, raw records,
  cache-hit flag, miss reason, error, summary)'', and the results are iterated ``in their
  returned (stable, file-discovery) order''. The loader is not handed the load's
  deduplication set, so its workers run the wrapper without one.
\<close>

fun specLoadFiles ::
  "'p env \<Rightarrow> 'p LoadUsageEntriesOptions \<Rightarrow> int option \<Rightarrow> SummaryStore option \<Rightarrow> path list \<Rightarrow>
   FileResult list \<times> SummaryStore option" where
  "specLoadFiles E opts cutoffTime st [] = ([], st)"
| "specLoadFiles E opts cutoffTime st (f # fs) =
     (case processSingleFileWithCacheWithReason E f (opts\<lparr>CacheStore := st\<rparr>) cutoffTime of
        (r, st') \<Rightarrow>
          (case specLoadFiles E opts cutoffTime st' fs of (rs, st'') \<Rightarrow> (r # rs, st'')))"

definition specLoadFilesWithProgress ::
  "'p env \<Rightarrow> path list \<Rightarrow> 'p LoadUsageEntriesOptions \<Rightarrow>
   (string + FileResult list) \<times> SummaryStore option" where
  "specLoadFilesWithProgress E files opts =
     (case specLoadFiles E opts (cutoffTimeOf E opts) (CacheStore opts) files of
        (rs, st') \<Rightarrow> (Inr rs, st'))"

text \<open>
  Modelled from the spec: the Result Merger (\<^verbatim>\<open>MergeResults\<close>,
  \<^verbatim>\<open>MergeResultsWithDedup\<close>), which is not among the source files. The spec: ``iterate
  results in their returned order; when deduplication is enabled, re-apply the
  messageID:requestID filter across all files' entries at merge time; first seen in merge
  order wins. Aggregate per-result errors into a non-fatal error list''.
\<close>

fun dedupEntries :: "string set \<Rightarrow> UsageEntry list \<Rightarrow> UsageEntry list" where
  "dedupEntries seen [] = []"
| "dedupEntries seen (e # es) =
     (if hasBothIDs e then
        (if dedupKey e \<in> seen then dedupEntries seen es
         else e # dedupEntries (insert (dedupKey e) seen) es)
      else e # dedupEntries seen es)"

definition succeeded :: "FileResult list \<Rightarrow> FileResult list" where
  "succeeded results = filter (\<lambda>r. Error r = None) results"

definition resultErrors :: "FileResult list \<Rightarrow> string list" where
  "resultErrors results = concat (map (\<lambda>r. case Error r of None \<Rightarrow> [] | Some e \<Rightarrow> [e]) results)"

definition specMergeResults ::
  "FileResult list \<Rightarrow> UsageEntry list \<times> raw list \<times> string list" where
  "specMergeResults results =
     (concat (map fileEntries (succeeded results)),
      concat (map fileRawEntries (succeeded results)),
      resultErrors results)"

definition specMergeResultsWithDedup ::
  "FileResult list \<Rightarrow> string set \<Rightarrow> UsageEntry list \<times> raw list \<times> string list" where
  "specMergeResultsWithDedup results seen =
     (dedupEntries seen (concat (map fileEntries (succeeded results))),
      concat (map fileRawEntries (succeeded results)),
      resultErrors results)"

definition withSpecLoader :: "'p env \<Rightarrow> 'p env" where
  "withSpecLoader E =
     E\<lparr>LoadFilesWithProgress := specLoadFilesWithProgress E,
       MergeResults := specMergeResults,
       MergeResultsWithDedup := specMergeResultsWithDedup\<rparr>"

section \<open>Sample data\<close>

text \<open>
  A small environment on which the theorems below are evaluated: the files are given as
  (path, modification time, lines); a file's size is its number of lines; every path is
  absolute; costs are zero; the session analyzer makes one active five-hour block from the
  first entry.
\<close>

fun lineHasUsage :: "line \<Rightarrow> bool" where
  "lineHasUsage (Object d (Some e)) = True"
| "lineHasUsage l = False"

definition sampleBase :: "int \<Rightarrow> (path \<times> int \<times> line list) list \<Rightarrow> unit env" where
  "sampleBase now files =
       \<lparr>time_Now = now,
        DiscoverFiles = (\<lambda>root. Inr (map fst files)),
        os_Stat = (\<lambda>p. case map_of files p of
                          None \<Rightarrow> None
                        | Some (mt, ls) \<Rightarrow> Some (mt, int (length ls))),
        os_Open = (\<lambda>p. case map_of files p of
                          None \<Rightarrow> Inl ''no such file''
                        | Some (mt, ls) \<Rightarrow> Inr (ls, None)),
        filepath_Abs = Some,
        filepath_Walk = (\<lambda>root. map (\<lambda>(p, mt, ls). (p, False, mt)) files),
        hasAssistantMessages =
          (\<lambda>p. case map_of files p of None \<Rightarrow> False | Some (mt, ls) \<Rightarrow> list_ex lineHasUsage ls),
        createEntriesFromSummary = (\<lambda>s cutoffTime. SummaryEntries s),
        createEmptySummaryForFile =
          (\<lambda>a p. Some \<lparr>Path = a, ModTime = 0, FileSize = 0, HasNoAssistantMessages = True,
                        SummaryEntries = []\<rparr>),
        createSummaryFromEntries =
          (\<lambda>a p es (mt, sz). Some \<lparr>Path = a, ModTime = mt, FileSize = sz,
                                    HasNoAssistantMessages = False, SummaryEntries = es\<rparr>),
        GetPricing = (\<lambda>m. ()),
        CalculateCost = (\<lambda>e pricing. 0),
        NormalizeModel = (\<lambda>m. m),
        extractProjectFromPath = (\<lambda>p. p),
        LoadFilesWithProgress = (\<lambda>fs os. (Inl ''no loader'', CacheStore os)),
        MergeResults = (\<lambda>rs. ([], [], [])),
        MergeResultsWithDedup = (\<lambda>rs seen. ([], [], [])),
        TransformToBlocks =
          (\<lambda>es. case es of
                  [] \<Rightarrow> []
                | e # es' \<Rightarrow> [\<lparr>StartTime = Timestamp e, EndTime = Timestamp e + fiveHours,
                               IsActive = True, LimitMessages = []\<rparr>]),
        DetectLimits = (\<lambda>rs. [])\<rparr>"

definition sampleEnv :: "int \<Rightarrow> (path \<times> int \<times> line list) list \<Rightarrow> unit env" where
  "sampleEnv now files = withSpecLoader (sampleBase now files)"

definition sampleEntry :: "int \<Rightarrow> string \<Rightarrow> string \<Rightarrow> UsageEntry" where
  "sampleEntry t m r =
     \<lparr>Timestamp = t, Model = ''m'', MessageID = m, RequestID = r, CostUSD = 0, Project = []\<rparr>"

definition sampleOptions :: "bool \<Rightarrow> SummaryStore option \<Rightarrow> unit LoadUsageEntriesOptions" where
  "sampleOptions dedup st =
     \<lparr>DataPath = ''d'', HoursBack = None, IncludeRaw = True, CacheStore = st,
      EnableDeduplication = dedup, PricingProvider = None\<rparr>"

definition emptyStore :: SummaryStore where
  "emptyStore = \<lparr>summaries = Map.empty, HasBatchSet = True, WriteOk = True, InvalidateOk = True\<rparr>"

fun invalidLine :: "line \<Rightarrow> bool" where
  "invalidLine (Invalid msg) = True"
| "invalidLine l = False"

text \<open>
  Three sample files: \<open>a\<close> and \<open>b\<close> each hold one usage record (out of timestamp order, and
  \<open>b\<close> starts with a line that is not JSON), \<open>c\<close> holds one record without usage. The
  sample store knows \<open>a\<close> as it is and holds outdated summaries of \<open>b\<close> and \<open>c\<close>.
\<close>

definition sampleFiles :: "(path \<times> int \<times> line list) list" where
  "sampleFiles =
     [(''a'', 5, [Object ''ra'' (Some (sampleEntry 9 ''m1'' ''r1''))]),
      (''b'', 6, [Invalid ''x'', Object ''rb'' (Some (sampleEntry 3 ''m2'' ''r2''))]),
      (''c'', 7, [Object ''rc'' None])]"

definition sampleSummary :: "path \<Rightarrow> int \<Rightarrow> int \<Rightarrow> UsageEntry list \<Rightarrow> FileSummary" where
  "sampleSummary p mt sz es =
     \<lparr>Path = p, ModTime = mt, FileSize = sz, HasNoAssistantMessages = False,
      SummaryEntries = es\<rparr>"

definition sampleStore :: SummaryStore where
  "sampleStore =
     emptyStore\<lparr>summaries :=
       [''a'' \<mapsto> sampleSummary ''a'' 5 1 [sampleEntry 9 ''m1'' ''r1''],
        ''b'' \<mapsto> sampleSummary ''b'' 1 2 [],
        ''c'' \<mapsto> sampleSummary ''c'' 1 1 []]\<rparr>"

definition sampleManager :: "SummaryStore option \<Rightarrow> unit DataManager" where
  "sampleManager st =
     \<lparr>hoursBack = 24, dataPath = ''d'', cache = None, cacheTimestamp = None,
      lastError = None, lastSuccessfulFetch = None, cacheStore = st,
      initialLoadCompleted = True, pricingProvider = None, enableDeduplication = True,
      activeSessionFiles = Map.empty\<rparr>"

text \<open>The invariant of the sequential loop: raw records imply a miss or an error.\<close>

definition rawInv :: "LoadState \<Rightarrow> bool" where
  "rawInv S = (0 \<le> cacheMisses S \<and>
      (cacheMisses S = 0 \<and> processingErrors S = [] \<longrightarrow> allRawEntries S = []))"

text \<open>
  Whether the tracker map has a tracker for \<open>p\<close> with the in-window flag set, and whether
  the loop over the discovered files marks \<open>p\<close> (its stat succeeds and its modification time
  passes the test of the inner loop for one of the active blocks).
\<close>

definition inWindow :: "(path \<rightharpoonup> FileTracker) \<Rightarrow> path \<Rightarrow> bool" where
  "inWindow trackers p = (case trackers p of None \<Rightarrow> False | Some t \<Rightarrow> InSessionWindow t)"

definition marked :: "'p env \<Rightarrow> SessionBlock list \<Rightarrow> path \<Rightarrow> bool" where
  "marked E activeBlocks p =
     (case os_Stat E p of
        None \<Rightarrow> False
      | Some (modTime, fileSize) \<Rightarrow> list_ex (modTimeInWindow modTime) activeBlocks)"

definition sampleBlock :: "int \<Rightarrow> int \<Rightarrow> SessionBlock" where
  "sampleBlock s e = \<lparr>StartTime = s, EndTime = e, IsActive = True, LimitMessages = []\<rparr>"

text \<open>
  The attempts of the retry loop, one after the other: \<open>attemptState Es dm n\<close> is the
  manager in which attempt \<open>n\<close> starts when the attempts before it have run (each one's error
  recorded in \<open>lastError\<close>), and \<open>attemptResult Es dm n\<close> is what
  \<^verbatim>\<open>analyzeUsageWatchMode\<close> returns in that attempt.
\<close>

fun attemptState :: "(nat \<Rightarrow> 'p env) \<Rightarrow> 'p DataManager \<Rightarrow> nat \<Rightarrow> 'p DataManager" where
  "attemptState Es dm 0 = dm"
| "attemptState Es dm (Suc n) =
     (case analyzeUsageWatchMode (Es n) (attemptState Es dm n) of
        ((data, err), dm') \<Rightarrow> dm'\<lparr>lastError := err\<rparr>)"

definition attemptResult ::
  "(nat \<Rightarrow> 'p env) \<Rightarrow> 'p DataManager \<Rightarrow> nat \<Rightarrow> AnalysisResult option \<times> string option" where
  "attemptResult Es dm n = fst (analyzeUsageWatchMode (Es n) (attemptState Es dm n))"

definition attemptFails :: "(nat \<Rightarrow> 'p env) \<Rightarrow> 'p DataManager \<Rightarrow> nat \<Rightarrow> bool" where
  "attemptFails Es dm n = (snd (attemptResult Es dm n) \<noteq> None)"

text \<open>Milliseconds as a \<^verbatim>\<open>time.Duration\<close>.\<close>

definition milliseconds :: "int \<Rightarrow> int" where
  "milliseconds n = n * 1000000"

text \<open>
  Sample attempts: the data directory is empty during the first two attempts and holds the
  sample files from the third on. A sample result, as a previous call may have published it.
\<close>

definition sampleAttempts :: "nat \<Rightarrow> unit env" where
  "sampleAttempts n = (if n < 2 then sampleEnv 0 [] else sampleEnv 0 sampleFiles)"

definition sampleResult :: AnalysisResult where
  "sampleResult =
     \<lparr>Blocks = [sampleBlock 5 10],
      ResultMetadata =
        \<lparr>GeneratedAt = 0, HoursAnalyzed = 24, EntriesProcessed = 1, BlocksCreated = 1,
         LimitsDetected = 0, CacheUsed = False, QuickStart = False\<rparr>\<rparr>"

text \<open>
  The entries of a load that reach the deduplication check, in the order the sequential loop
  meets them: the usage entries of each file that opens, not older than the cutoff, as the
  loop finishes them (cost, model name, project).
\<close>

fun lineCandidate :: "int option \<Rightarrow> line \<Rightarrow> UsageEntry list" where
  "lineCandidate cutoffTime (Object d (Some entry)) =
     (if (case cutoffTime of None \<Rightarrow> False | Some c \<Rightarrow> Timestamp entry < c) then []
      else [entry])"
| "lineCandidate cutoffTime l = []"

definition fileCandidates ::
  "'p env \<Rightarrow> 'p LoadUsageEntriesOptions \<Rightarrow> int option \<Rightarrow> path \<Rightarrow> UsageEntry list" where
  "fileCandidates E opts cutoffTime filePath =
     (case os_Open E filePath of
        Inl e \<Rightarrow> []
      | Inr (ls, scanErr) \<Rightarrow>
          map (finishEntry E filePath (Some opts)) (concat (map (lineCandidate cutoffTime) ls)))"

definition loadCandidates ::
  "'p env \<Rightarrow> 'p LoadUsageEntriesOptions \<Rightarrow> path list \<Rightarrow> UsageEntry list" where
  "loadCandidates E opts files =
     concat (map (fileCandidates E opts (cutoffTimeOf E opts)) files)"

text \<open>An entry that takes part in deduplication under the key \<open>k\<close>.\<close>

definition sameKey :: "string \<Rightarrow> UsageEntry \<Rightarrow> bool" where
  "sameKey k e = (hasBothIDs e \<and> dedupKey e = k)"

text \<open>The keys a list of entries leaves in the seen set.\<close>

definition seenAfter :: "string set \<Rightarrow> UsageEntry list \<Rightarrow> string set" where
  "seenAfter seen es = seen \<union> dedupKey ` {e \<in> set es. hasBothIDs e}"

fun lineRaw :: "line \<Rightarrow> raw list" where
  "lineRaw (Object d u) = [d]"
| "lineRaw l = []"

text \<open>
  Sample files with a duplicate: file \<open>b\<close> repeats the IDs of the record in \<open>a\<close> and holds a
  record without a message ID. Sample files with colliding keys: \<open>m:x\<close> with \<open>r\<close> in file
  \<open>a\<close>, and \<open>m\<close> with \<open>x:r\<close> in files \<open>b\<close> and \<open>c\<close>.
\<close>

definition sampleDupFiles :: "(path \<times> int \<times> line list) list" where
  "sampleDupFiles =
     [(''a'', 5, [Object ''ra'' (Some (sampleEntry 9 ''m1'' ''r1''))]),
      (''b'', 6, [Object ''rb'' (Some (sampleEntry 3 ''m1'' ''r1'')),
                  Object ''rc'' (Some (sampleEntry 4 [] ''r7''))])]"

definition sampleCollisionFiles :: "(path \<times> int \<times> line list) list" where
  "sampleCollisionFiles =
     [(''a'', 5, [Object ''ra'' (Some (sampleEntry 1 ''m:x'' ''r''))]),
      (''b'', 6, [Object ''rb'' (Some (sampleEntry 2 ''m'' ''x:r''))]),
      (''c'', 7, [Object ''rc'' (Some (sampleEntry 3 ''m'' ''x:r''))])]"

text \<open>
  The sample files with a duplicate, where reading file \<open>a\<close> ends in a scanner error after
  its one record (as a following line beyond the scanner's 10 MB limit makes it).
\<close>

definition sampleBrokenEnv :: "unit env" where
  "sampleBrokenEnv =
     withSpecLoader
       ((sampleBase 0 sampleDupFiles)
          \<lparr>os_Open :=
             (\<lambda>p. if p = ''a''
                  then Inr ([Object ''ra'' (Some (sampleEntry 9 ''m1'' ''r1''))],
                            Some ''bufio.Scanner: token too long'')
                  else os_Open (sampleBase 0 sampleDupFiles) p)\<rparr>)"

text \<open>
  Eleven sample files, enough for the concurrent branch, each with one usage record, and a
  store that knows every one of them as it is.
\<close>

definition sampleManyPaths :: "path list" where
  "sampleManyPaths =
     [''f01'', ''f02'', ''f03'', ''f04'', ''f05'', ''f06'', ''f07'', ''f08'', ''f09'', ''f10'',
      ''f11'']"

definition sampleManyFiles :: "(path \<times> int \<times> line list) list" where
  "sampleManyFiles =
     map (\<lambda>p. (p, 5, [Object ''r'' (Some (sampleEntry 9 p ''r1''))])) sampleManyPaths"

definition sampleManyStore :: SummaryStore where
  "sampleManyStore =
     emptyStore\<lparr>summaries :=
       map_of (map (\<lambda>p. (p, sampleSummary p 5 1 [sampleEntry 9 p ''r1''])) sampleManyPaths)\<rparr>"

section \<open>The per-file processor: errors and corrupt lines\<close>

lemma finishEntry_os_Open:
  "finishEntry (E\<lparr>os_Open := f\<rparr>) = finishEntry E"
  by (intro ext) (simp add: finishEntry_def entryCost_def split: option.splits)

lemma scanLine_os_Open:
  "scanLine (E\<lparr>os_Open := f\<rparr>) filePath c r opts s l = scanLine E filePath c r opts s l"
  by (cases "(E, filePath, c, r, opts, s, l)" rule: scanLine.cases)
     (simp_all add: Let_def finishEntry_os_Open split: option.splits)

lemma foldl_scanLine_os_Open:
  "foldl (scanLine (E\<lparr>os_Open := f\<rparr>) filePath c r opts) s ls =
   foldl (scanLine E filePath c r opts) s ls"
  by (induction ls arbitrary: s) (simp_all add: scanLine_os_Open)

lemma scanLine_invalid:
  "invalidLine l \<Longrightarrow> scanLine E filePath c r opts s l = s"
  by (cases l; cases s) auto

lemma foldl_scanLine_skip_invalid:
  "foldl (scanLine E filePath c r opts) s (filter (\<lambda>l. \<not> invalidLine l) ls) =
   foldl (scanLine E filePath c r opts) s ls"
  by (induction ls arbitrary: s) (simp_all add: scanLine_invalid)

text \<open>
  C6. \<^verbatim>\<open>processSingleFileWithDedup\<close> returns an error exactly when the file cannot be
  opened or the scanner reports an error, and then it returns no entries and no raw records;
  a line that fails JSON parsing changes nothing: the call returns what it returns on the
  file without its unparsable lines.
\<close>

theorem processSingleFileWithDedup_errors:
  "(case processSingleFileWithDedup E filePath cutoffTime includeRaw dd opts of
     ((entries, rawEntries, err), dd') \<Rightarrow>
       (err \<noteq> None \<longleftrightarrow>
          (case os_Open E filePath of Inl e \<Rightarrow> True | Inr (ls, scanErr) \<Rightarrow> scanErr \<noteq> None)) \<and>
       (err \<noteq> None \<longrightarrow> entries = [] \<and> rawEntries = [])) \<and>
   (\<forall>ls scanErr. os_Open E filePath = Inr (ls, scanErr) \<longrightarrow>
      processSingleFileWithDedup
        (E\<lparr>os_Open := (os_Open E)(filePath := Inr (filter (\<lambda>l. \<not> invalidLine l) ls, scanErr))\<rparr>)
        filePath cutoffTime includeRaw dd opts =
      processSingleFileWithDedup E filePath cutoffTime includeRaw dd opts)"
  by (auto simp: processSingleFileWithDedup_def foldl_scanLine_skip_invalid
        foldl_scanLine_os_Open
      split: sum.splits prod.splits option.splits)

theorem processSingleFileWithDedup_errors_witness:
  "os_Open (sampleEnv 0 [(''a'', 5, [Invalid ''x'', Object ''r'' (Some (sampleEntry 7 ''m'' ''q''))])]) ''a''
     = Inr ([Invalid ''x'', Object ''r'' (Some (sampleEntry 7 ''m'' ''q''))], None) \<and>
   fst (processSingleFileWithDedup
         (sampleEnv 0 [(''a'', 5, [Invalid ''x'', Object ''r'' (Some (sampleEntry 7 ''m'' ''q''))])])
         ''a'' None True None None)
     = ([(sampleEntry 7 ''m'' ''q'')\<lparr>Project := ''a''\<rparr>], [''r''], None) \<and>
   fst (processSingleFileWithDedup
         ((sampleEnv 0 [])\<lparr>os_Open := (\<lambda>p. Inr ([Object ''r'' (Some (sampleEntry 7 ''m'' ''q''))],
                                                 Some ''token too long''))\<rparr>)
         ''a'' None True None None)
     = ([], [], Some ''error reading file: token too long'')"
  using processSingleFileWithDedup_errors
          [of "sampleEnv 0 [(''a'', 5, [Invalid ''x'', Object ''r'' (Some (sampleEntry 7 ''m'' ''q''))])]"
              "''a''" None True None None]
        processSingleFileWithDedup_errors
          [of "(sampleEnv 0 [])\<lparr>os_Open := (\<lambda>p. Inr ([Object ''r'' (Some (sampleEntry 7 ''m'' ''q''))],
                                                 Some ''token too long''))\<rparr>"
              "''a''" None True None None]
  by (simp add: processSingleFileWithDedup_def sampleEnv_def sampleBase_def withSpecLoader_def
        finishEntry_def entryCost_def sampleEntry_def)

section \<open>Evaluation on the sample data\<close>

lemmas load_eval =
  LoadUsageEntries_def sampleEnv_def sampleBase_def withSpecLoader_def
  sampleOptions_def loadSequential_def cutoffTimeOf_def initialLoadState_def
  sequentialStep_def processSingleFileWithCacheAndDedup_def processUncached_def
  processAfterMiss_def processSingleFile_def
  absPathOf_def processSingleFileWithDedup_def finishEntry_def entryCost_def
  sampleEntry_def hasBothIDs_def dedupKey_def countResult_def collectSummary_def
  finishLoad_def writeSummaries_def Let_def
  GetFileSummary_def SetFileSummary_def BatchSet_def InvalidateFileSummary_def IsExpired_def
  sampleFiles_def

lemmas manager_eval =
  analyzeUsageWatchMode_def loadOptions_def sampleManager_def processUsageData_def
  updateSessionWindowFiles_def markFile_def isActiveBlock_def modTimeInWindow_def
  attachLimits_def fiveHours_def thirtyMinutes_def

section \<open>The loader sorts by timestamp\<close>

lemma sorted_finishLoad:
  "finishLoad files S = (r, st) \<Longrightarrow> sorted (map Timestamp (Entries r))"
  by (auto simp: finishLoad_def Let_def)

text \<open>
  C4. Whenever \<^verbatim>\<open>LoadUsageEntries\<close> returns a result, in the sequential branch or in the
  concurrent branch and whatever the concurrent loader and the mergers return, the entries
  of the result are sorted non-decreasing by timestamp.
\<close>

theorem LoadUsageEntries_sorted:
  "fst (LoadUsageEntries E opts) = Inr r \<Longrightarrow> sorted (map Timestamp (Entries r))"
  by (auto simp: LoadUsageEntries_def split: sum.splits if_splits prod.splits
      dest: sorted_finishLoad)

theorem LoadUsageEntries_sorted_witness:
  "\<exists>r. fst (LoadUsageEntries (sampleEnv 0 sampleFiles) (sampleOptions True None)) = Inr r \<and>
       map Timestamp (Entries r) = [3, 9] \<and> sorted (map Timestamp (Entries r))"
proof -
  have "\<exists>r. fst (LoadUsageEntries (sampleEnv 0 sampleFiles) (sampleOptions True None)) = Inr r"
    by (simp add: load_eval)
  then obtain r where
    r: "fst (LoadUsageEntries (sampleEnv 0 sampleFiles) (sampleOptions True None)) = Inr r"
    by blast
  have "sorted (map Timestamp (Entries r))"
    by (rule LoadUsageEntries_sorted[OF r])
  moreover have "map Timestamp (Entries r) = [3, 9]"
    using r by (auto simp: load_eval)
  ultimately show ?thesis using r by (intro exI[of _ r]) simp
qed

section \<open>No entries, no result\<close>

text \<open>
  C9. \<^verbatim>\<open>processUsageData\<close> returns the error ``no usage entries found'' and no result
  (and leaves the manager as it is) when the loaded entry list is empty, and a result
  without an error otherwise; so a watch-mode attempt whose load yields no entries fails.
\<close>

theorem processUsageData_no_entries:
  "(Entries result = [] \<longrightarrow>
      processUsageData E dm result = ((None, Some ''no usage entries found''), dm)) \<and>
   (Entries result \<noteq> [] \<longrightarrow>
      (\<exists>data. fst (processUsageData E dm result) = (Some data, None))) \<and>
   (\<forall>st'. LoadUsageEntries E (loadOptions dm) = (Inr result, st') \<longrightarrow> Entries result = [] \<longrightarrow>
      fst (analyzeUsageWatchMode E dm) = (None, Some ''no usage entries found''))"
  by (simp add: processUsageData_def analyzeUsageWatchMode_def Let_def)

theorem processUsageData_no_entries_witness:
  "(\<exists>result st'.
      LoadUsageEntries (sampleEnv 0 []) (loadOptions (sampleManager None)) = (Inr result, st') \<and>
      Entries result = [] \<and>
      processUsageData (sampleEnv 0 []) (sampleManager None) result =
        ((None, Some ''no usage entries found''), sampleManager None)) \<and>
   fst (analyzeUsageWatchMode (sampleEnv 0 []) (sampleManager None)) =
     (None, Some ''no usage entries found'')"
proof -
  obtain result st' where
    l: "LoadUsageEntries (sampleEnv 0 []) (loadOptions (sampleManager None)) = (Inr result, st')"
    and e: "Entries result = []"
    by (simp add: load_eval manager_eval)
  from processUsageData_no_entries[of result "sampleEnv 0 []" "sampleManager None"] l e
  show ?thesis by blast
qed

section \<open>Cache hits carry no raw records\<close>

lemma processUncached_miss:
  "processUncached E filePath opts cutoffTime dd = (r, dd') \<Longrightarrow> \<not> FromCache r"
  by (auto simp: processUncached_def Let_def split: prod.splits option.splits)

lemma processAfterMiss_miss:
  "processAfterMiss E filePath opts cutoffTime dd st = (r, st', dd') \<Longrightarrow> \<not> FromCache r"
  by (auto simp: processAfterMiss_def split: if_splits prod.splits dest: processUncached_miss)

lemma cache_hit_fields:
  "processSingleFileWithCacheAndDedup E filePath opts cutoffTime dd = (r, st', dd') \<Longrightarrow>
   FromCache r \<Longrightarrow> fileRawEntries r = [] \<and> Error r = None \<and> MissReason r = [] \<and>
     Summary r = None \<and> st' = CacheStore opts \<and> dd' = dd"
  unfolding processSingleFileWithCacheAndDedup_def
  by (auto split: option.splits prod.splits if_splits
      dest: processUncached_miss processAfterMiss_miss)

lemma countResult_fields:
  "allEntries (countResult fc mr S) = allEntries S"
  "allRawEntries (countResult fc mr S) = allRawEntries S"
  "processingErrors (countResult fc mr S) = processingErrors S"
  "summariesToCache (countResult fc mr S) = summariesToCache S"
  "deduplicationSet (countResult fc mr S) = deduplicationSet S"
  "store (countResult fc mr S) = store S"
  "cacheHits (countResult fc mr S) = (if fc then cacheHits S + 1 else cacheHits S)"
  "cacheMisses (countResult fc mr S) = (if fc then cacheMisses S else cacheMisses S + 1)"
  by (simp_all add: countResult_def)

lemma collectSummary_fields:
  "allEntries (collectSummary sm S) = allEntries S"
  "allRawEntries (collectSummary sm S) = allRawEntries S"
  "processingErrors (collectSummary sm S) = processingErrors S"
  "deduplicationSet (collectSummary sm S) = deduplicationSet S"
  "store (collectSummary sm S) = store S"
  "cacheHits (collectSummary sm S) = cacheHits S"
  "cacheMisses (collectSummary sm S) = cacheMisses S"
  "cacheMissReasons (collectSummary sm S) = cacheMissReasons S"
  by (simp_all add: collectSummary_def split: option.splits)

lemma sequentialStep_rawInv:
  assumes "rawInv S"
  shows "rawInv (sequentialStep E opts c S f)"
proof -
  obtain r st' dd' where call:
    "processSingleFileWithCacheAndDedup E f (opts\<lparr>CacheStore := store S\<rparr>) c (deduplicationSet S)
       = (r, st', dd')"
    by (cases "processSingleFileWithCacheAndDedup E f (opts\<lparr>CacheStore := store S\<rparr>) c
                 (deduplicationSet S)") auto
  show ?thesis
  proof (cases "Error r")
    case (Some e)
    with assms call show ?thesis
      by (simp add: sequentialStep_def rawInv_def)
  next
    case None
    show ?thesis
    proof (cases "FromCache r")
      case True
      with cache_hit_fields[OF call] have "fileRawEntries r = []" by simp
      with assms call None True show ?thesis
        by (simp add: sequentialStep_def rawInv_def Let_def countResult_fields
              collectSummary_fields)
    next
      case False
      with assms call None show ?thesis
        by (simp add: sequentialStep_def rawInv_def Let_def countResult_fields
              collectSummary_fields)
    qed
  qed
qed

lemma foldl_sequentialStep_rawInv:
  "rawInv S \<Longrightarrow> rawInv (foldl (sequentialStep E opts c) S fs)"
  by (induction fs arbitrary: S) (simp_all add: sequentialStep_rawInv)

lemma loadSequential_rawInv: "rawInv (loadSequential E opts fs)"
  unfolding loadSequential_def
  by (rule foldl_sequentialStep_rawInv) (simp add: rawInv_def initialLoadState_def)

lemma specLoadFiles_hits:
  "specLoadFiles E opts c st fs = (rs, st') \<Longrightarrow> r \<in> set rs \<Longrightarrow> FromCache r \<Longrightarrow>
   fileRawEntries r = []"
proof (induction fs arbitrary: st rs st')
  case Nil
  then show ?case by simp
next
  case (Cons f fs)
  obtain r0 st0 dd0 where p:
    "processSingleFileWithCacheAndDedup E f (opts\<lparr>CacheStore := st\<rparr>) c None = (r0, st0, dd0)"
    by (metis prod.exhaust)
  obtain rs1 st1 where q: "specLoadFiles E opts c st0 fs = (rs1, st1)"
    by (metis prod.exhaust)
  from Cons.prems(1) p q have rs: "rs = r0 # rs1"
    by (simp add: processSingleFileWithCacheWithReason_def)
  show ?case
  proof (cases "r = r0")
    case True
    with cache_hit_fields[OF p] Cons.prems(3) show ?thesis by simp
  next
    case False
    with rs Cons.prems(2) have "r \<in> set rs1" by simp
    from Cons.IH[OF q this Cons.prems(3)] show ?thesis .
  qed
qed

lemma concurrentStat_fields:
  "allRawEntries (concurrentStat S r) = allRawEntries S"
  "processingErrors (concurrentStat S r) = processingErrors S"
  "cacheMisses (concurrentStat S r) =
     (if Error r = None \<and> \<not> FromCache r then cacheMisses S + 1 else cacheMisses S)"
  by (simp_all add: concurrentStat_def countResult_fields collectSummary_fields
      split: option.splits)

lemma foldl_concurrentStat_fields:
  "allRawEntries (foldl concurrentStat S rs) = allRawEntries S"
  "processingErrors (foldl concurrentStat S rs) = processingErrors S"
  by (induction rs arbitrary: S) (simp_all add: concurrentStat_fields)

lemma foldl_concurrentStat_misses_mono:
  "cacheMisses S \<le> cacheMisses (foldl concurrentStat S rs)"
proof (induction rs arbitrary: S)
  case Nil
  show ?case by simp
next
  case (Cons r rs)
  have "cacheMisses S \<le> cacheMisses (concurrentStat S r)"
    by (simp add: concurrentStat_fields)
  also have "\<dots> \<le> cacheMisses (foldl concurrentStat (concurrentStat S r) rs)"
    by (rule Cons.IH)
  finally show ?case by simp
qed

lemma foldl_concurrentStat_no_miss:
  "0 \<le> cacheMisses S \<Longrightarrow> cacheMisses (foldl concurrentStat S rs) = 0 \<Longrightarrow>
   r \<in> set rs \<Longrightarrow> Error r = None \<Longrightarrow> FromCache r"
proof (induction rs arbitrary: S)
  case Nil
  then show ?case by simp
next
  case (Cons x rs)
  have m: "cacheMisses (concurrentStat S x) \<le> cacheMisses (foldl concurrentStat (concurrentStat S x) rs)"
    by (rule foldl_concurrentStat_misses_mono)
  have z: "cacheMisses (foldl concurrentStat (concurrentStat S x) rs) = 0"
    using Cons.prems(2) by simp
  have ge: "0 \<le> cacheMisses (concurrentStat S x)"
    using Cons.prems(1) by (simp add: concurrentStat_fields)
  show ?case
  proof (cases "r = x")
    case True
    show ?thesis
    proof (rule ccontr)
      assume "\<not> FromCache r"
      with True Cons.prems(4) have "cacheMisses (concurrentStat S x) = cacheMisses S + 1"
        by (simp add: concurrentStat_fields)
      with m z Cons.prems(1) show False by simp
    qed
  next
    case False
    with Cons.prems(3) have "r \<in> set rs" by simp
    from Cons.IH[OF ge z this Cons.prems(4)] show ?thesis .
  qed
qed

lemma resultErrors_empty:
  "resultErrors rs = [] \<Longrightarrow> r \<in> set rs \<Longrightarrow> Error r = None"
  by (induction rs) (auto simp: resultErrors_def split: option.splits)

lemma withSpecLoader_fields:
  "DiscoverFiles (withSpecLoader E) = DiscoverFiles E"
  "LoadFilesWithProgress (withSpecLoader E) = specLoadFilesWithProgress E"
  "MergeResults (withSpecLoader E) = specMergeResults"
  "MergeResultsWithDedup (withSpecLoader E) = specMergeResultsWithDedup"
  by (simp_all add: withSpecLoader_def)

lemma loadConcurrent_spec_raw:
  assumes "loadConcurrent (withSpecLoader E) opts files = Inr S"
    and "cacheMisses S = 0" and "processingErrors S = []"
  shows "allRawEntries S = []"
proof -
  obtain rs st' where sl:
    "specLoadFiles E opts (cutoffTimeOf E opts) (CacheStore opts) files = (rs, st')"
    by (metis prod.exhaust)
  define S0 where "S0 = (initialLoadState opts)\<lparr>
      allEntries := (if EnableDeduplication opts
                     then dedupEntries {} (concat (map fileEntries (succeeded rs)))
                     else concat (map fileEntries (succeeded rs))),
      allRawEntries := concat (map fileRawEntries (succeeded rs)),
      processingErrors := resultErrors rs, store := st'\<rparr>"
  have S: "S = foldl concurrentStat S0 rs"
    using assms(1) sl
    by (auto simp: loadConcurrent_def withSpecLoader_fields specLoadFilesWithProgress_def
        specMergeResults_def specMergeResultsWithDedup_def S0_def split: if_splits)
  have raw: "allRawEntries S = concat (map fileRawEntries (succeeded rs))"
    by (simp add: S foldl_concurrentStat_fields S0_def)
  have err: "resultErrors rs = []"
    using assms(3) by (simp add: S foldl_concurrentStat_fields S0_def)
  have zero: "0 \<le> cacheMisses S0" by (simp add: S0_def initialLoadState_def)
  have "fileRawEntries r = []" if "r \<in> set rs" for r
  proof -
    have "Error r = None" using err that by (rule resultErrors_empty)
    with foldl_concurrentStat_no_miss[OF zero _ that] assms(2) S have "FromCache r" by simp
    with specLoadFiles_hits[OF sl that] show ?thesis by simp
  qed
  then have "concat (map fileRawEntries (succeeded rs)) = []"
    by (auto simp: succeeded_def)
  with raw show ?thesis by simp
qed

text \<open>
  C10. A per-file result that comes from the cache has no raw records, whatever
  \<^verbatim>\<open>IncludeRaw\<close> is. So a load that counts no miss and no error (every file was a cache
  hit) returns no raw records: through the sequential loop in every environment, and, with
  the concurrent loader and the mergers of the spec, for any number of files.
\<close>

theorem cache_hits_carry_no_raw:
  "(processSingleFileWithCacheAndDedup E filePath opts cutoffTime dd = (r, st', dd') \<longrightarrow>
      FromCache r \<longrightarrow> fileRawEntries r = []) \<and>
   (DiscoverFiles E (DataPath opts) = Inr files \<longrightarrow> length files \<le> 10 \<longrightarrow>
      LoadUsageEntries E opts = (Inr res, st) \<longrightarrow>
      Misses (CacheStats (Metadata res)) = 0 \<longrightarrow> ProcessingErrors (Metadata res) = [] \<longrightarrow>
      RawEntries res = []) \<and>
   (LoadUsageEntries (withSpecLoader E) opts = (Inr res, st) \<longrightarrow>
      Misses (CacheStats (Metadata res)) = 0 \<longrightarrow> ProcessingErrors (Metadata res) = [] \<longrightarrow>
      RawEntries res = [])"
proof (intro conjI impI)
  assume "processSingleFileWithCacheAndDedup E filePath opts cutoffTime dd = (r, st', dd')"
    and "FromCache r"
  then show "fileRawEntries r = []" using cache_hit_fields by blast
next
  assume d: "DiscoverFiles E (DataPath opts) = Inr files" and n: "length files \<le> 10"
    and l: "LoadUsageEntries E opts = (Inr res, st)"
    and m: "Misses (CacheStats (Metadata res)) = 0"
    and e: "ProcessingErrors (Metadata res) = []"
  from d n l have res: "res = fst (finishLoad files (loadSequential E opts files))"
    by (auto simp: LoadUsageEntries_def split: prod.splits)
  from res m have "cacheMisses (loadSequential E opts files) = 0"
    by (simp add: finishLoad_def Let_def)
  moreover from res e have "processingErrors (loadSequential E opts files) = []"
    by (simp add: finishLoad_def Let_def)
  ultimately have "allRawEntries (loadSequential E opts files) = []"
    using loadSequential_rawInv[of E opts files] by (simp add: rawInv_def)
  with res show "RawEntries res = []"
    by (simp add: finishLoad_def Let_def)
next
  assume l: "LoadUsageEntries (withSpecLoader E) opts = (Inr res, st)"
    and m: "Misses (CacheStats (Metadata res)) = 0"
    and e: "ProcessingErrors (Metadata res) = []"
  from l obtain fs where d: "DiscoverFiles E (DataPath opts) = Inr fs"
    by (auto simp: LoadUsageEntries_def withSpecLoader_fields split: sum.splits)
  show "RawEntries res = []"
  proof (cases "10 < length fs")
    case False
    with d l have res: "res = fst (finishLoad fs (loadSequential (withSpecLoader E) opts fs))"
      by (auto simp: LoadUsageEntries_def withSpecLoader_fields split: prod.splits)
    from res m have "cacheMisses (loadSequential (withSpecLoader E) opts fs) = 0"
      by (simp add: finishLoad_def Let_def)
    moreover from res e have "processingErrors (loadSequential (withSpecLoader E) opts fs) = []"
      by (simp add: finishLoad_def Let_def)
    ultimately have "allRawEntries (loadSequential (withSpecLoader E) opts fs) = []"
      using loadSequential_rawInv[of "withSpecLoader E" opts fs] by (simp add: rawInv_def)
    with res show ?thesis by (simp add: finishLoad_def Let_def)
  next
    case True
    with d l obtain S where
      c: "loadConcurrent (withSpecLoader E) opts fs = Inr S"
      and res: "res = fst (finishLoad fs S)"
      by (auto simp: LoadUsageEntries_def withSpecLoader_fields split: prod.splits sum.splits)
    from res m have "cacheMisses S = 0" by (simp add: finishLoad_def Let_def)
    moreover from res e have "processingErrors S = []" by (simp add: finishLoad_def Let_def)
    ultimately have "allRawEntries S = []" by (rule loadConcurrent_spec_raw[OF c])
    with res show ?thesis by (simp add: finishLoad_def Let_def)
  qed
qed

theorem cache_hits_carry_no_raw_witness:
  "(\<exists>r st' dd'.
      processSingleFileWithCacheAndDedup (sampleEnv 0 sampleFiles) ''a''
        (sampleOptions True (Some sampleStore)) None None = (r, st', dd') \<and>
      IncludeRaw (sampleOptions True (Some sampleStore)) \<and> FromCache r \<and>
      fileEntries r \<noteq> [] \<and> fileRawEntries r = []) \<and>
   (\<exists>res st.
      DiscoverFiles (sampleEnv 0 (take 1 sampleFiles))
        (DataPath (sampleOptions True (Some sampleStore))) = Inr [''a''] \<and>
      LoadUsageEntries (sampleEnv 0 (take 1 sampleFiles))
        (sampleOptions True (Some sampleStore)) = (Inr res, st) \<and>
      Hits (CacheStats (Metadata res)) = 1 \<and> Misses (CacheStats (Metadata res)) = 0 \<and>
      ProcessingErrors (Metadata res) = [] \<and> Entries res \<noteq> [] \<and> RawEntries res = []) \<and>
   (\<exists>res st.
      LoadUsageEntries (withSpecLoader (sampleBase 0 sampleManyFiles))
        (sampleOptions False (Some sampleManyStore)) = (Inr res, st) \<and>
      FilesProcessed (Metadata res) = 11 \<and>
      Hits (CacheStats (Metadata res)) = 11 \<and> Misses (CacheStats (Metadata res)) = 0 \<and>
      ProcessingErrors (Metadata res) = [] \<and> Entries res \<noteq> [] \<and> RawEntries res = [])"
proof -
  obtain r st' dd' where
    p: "processSingleFileWithCacheAndDedup (sampleEnv 0 sampleFiles) ''a''
          (sampleOptions True (Some sampleStore)) None None = (r, st', dd')"
    and h: "FromCache r" "fileEntries r \<noteq> []"
    by (simp add: load_eval sampleStore_def sampleSummary_def emptyStore_def)
  obtain res st where
    l: "LoadUsageEntries (sampleEnv 0 (take 1 sampleFiles))
          (sampleOptions True (Some sampleStore)) = (Inr res, st)"
    and m: "Hits (CacheStats (Metadata res)) = 1" "Misses (CacheStats (Metadata res)) = 0"
       "ProcessingErrors (Metadata res) = []" "Entries res \<noteq> []"
    by (simp add: load_eval sampleStore_def sampleSummary_def emptyStore_def)
  obtain res2 st2 where
    l2: "LoadUsageEntries (withSpecLoader (sampleBase 0 sampleManyFiles))
          (sampleOptions False (Some sampleManyStore)) = (Inr res2, st2)"
    and m2: "FilesProcessed (Metadata res2) = 11"
       "Hits (CacheStats (Metadata res2)) = 11" "Misses (CacheStats (Metadata res2)) = 0"
       "ProcessingErrors (Metadata res2) = []" "Entries res2 \<noteq> []"
    by (simp add: load_eval loadConcurrent_def specLoadFilesWithProgress_def
        processSingleFileWithCacheWithReason_def specMergeResults_def
        specMergeResultsWithDedup_def succeeded_def resultErrors_def concurrentStat_def
        sampleManyFiles_def sampleManyPaths_def sampleManyStore_def sampleSummary_def
        emptyStore_def)
  have d: "DiscoverFiles (sampleEnv 0 (take 1 sampleFiles))
             (DataPath (sampleOptions True (Some sampleStore))) = Inr [''a'']"
    by (simp add: load_eval)
  have i: "IncludeRaw (sampleOptions True (Some sampleStore))"
    by (simp add: sampleOptions_def)
  from cache_hits_carry_no_raw
         [of "sampleEnv 0 sampleFiles" "''a''" "sampleOptions True (Some sampleStore)"
             None None r st' dd']
       p h
  have a: "fileRawEntries r = []" by blast
  from cache_hits_carry_no_raw
         [of "sampleEnv 0 (take 1 sampleFiles)" _ "sampleOptions True (Some sampleStore)"
             _ _ _ _ _ "[''a'']" res st]
       d l m
  have b: "RawEntries res = []" by simp
  from cache_hits_carry_no_raw
         [of "sampleBase 0 sampleManyFiles" _ "sampleOptions False (Some sampleManyStore)"
             _ _ _ _ _ _ res2 st2]
       l2 m2
  have c: "RawEntries res2 = []" by simp
  have first: "\<exists>r st' dd'.
      processSingleFileWithCacheAndDedup (sampleEnv 0 sampleFiles) ''a''
        (sampleOptions True (Some sampleStore)) None None = (r, st', dd') \<and>
      IncludeRaw (sampleOptions True (Some sampleStore)) \<and> FromCache r \<and>
      fileEntries r \<noteq> [] \<and> fileRawEntries r = []"
    using p h a i by blast
  have second: "\<exists>res st.
      DiscoverFiles (sampleEnv 0 (take 1 sampleFiles))
        (DataPath (sampleOptions True (Some sampleStore))) = Inr [''a''] \<and>
      LoadUsageEntries (sampleEnv 0 (take 1 sampleFiles))
        (sampleOptions True (Some sampleStore)) = (Inr res, st) \<and>
      Hits (CacheStats (Metadata res)) = 1 \<and> Misses (CacheStats (Metadata res)) = 0 \<and>
      ProcessingErrors (Metadata res) = [] \<and> Entries res \<noteq> [] \<and> RawEntries res = []"
    using d l m b by blast
  have third: "\<exists>res st.
      LoadUsageEntries (withSpecLoader (sampleBase 0 sampleManyFiles))
        (sampleOptions False (Some sampleManyStore)) = (Inr res, st) \<and>
      FilesProcessed (Metadata res) = 11 \<and>
      Hits (CacheStats (Metadata res)) = 11 \<and> Misses (CacheStats (Metadata res)) = 0 \<and>
      ProcessingErrors (Metadata res) = [] \<and> Entries res \<noteq> [] \<and> RawEntries res = []"
    using l2 m2 c by (intro exI[of _ res2] exI[of _ st2]) simp
  from first second third show ?thesis by (intro conjI)
qed

section \<open>The cache lookup of one file\<close>

text \<open>
  What the wrapper does with a store configured, case by case. If stat fails, the file is
  parsed by \<^verbatim>\<open>processSingleFile\<close> and the miss is \<open>new_file\<close>. If the stored summary's
  (modTime, size) equal the file's, the result is a cache hit without a miss reason, with no
  entries when the summary says there are no assistant messages and the reconstructed
  entries otherwise. If they differ, \<^verbatim>\<open>InvalidateFileSummary\<close> is applied to the store
  and the result is a miss: \<open>no_assistant_messages\<close> with no entries when the file has no
  assistant messages; otherwise the file is parsed in full, and the miss reason comes from
  a second lookup in the store as the invalidation left it: \<open>new_file\<close> when the
  invalidation succeeded, \<open>modified_file\<close> only when it failed.
\<close>

lemma cache_lookup_cases:
  assumes "CacheStore opts = Some st"
  shows
    "(os_Stat E filePath = None \<longrightarrow>
        processSingleFileWithCacheAndDedup E filePath opts cutoffTime dd =
          (case processSingleFile E filePath cutoffTime (IncludeRaw opts) of
             (entries, rawEntries, err) \<Rightarrow>
               (\<lparr>fileEntries = entries, fileRawEntries = rawEntries, FromCache = False,
                 MissReason = ''new_file'', Error = err, Summary = None\<rparr>, Some st, dd))) \<and>
     (\<forall>modTime fileSize cached.
        os_Stat E filePath = Some (modTime, fileSize) \<longrightarrow>
        GetFileSummary st (absPathOf E filePath) = Some cached \<longrightarrow>
        (if ModTime cached = modTime \<and> FileSize cached = fileSize then
           processSingleFileWithCacheAndDedup E filePath opts cutoffTime dd =
             (\<lparr>fileEntries =
                 (if HasNoAssistantMessages cached then []
                  else createEntriesFromSummary E cached cutoffTime),
               fileRawEntries = [], FromCache = True, MissReason = [], Error = None,
               Summary = None\<rparr>, Some st, dd)
         else
           (case processSingleFileWithCacheAndDedup E filePath opts cutoffTime dd of
              (r, st', dd') \<Rightarrow>
                st' = Some (InvalidateFileSummary st (absPathOf E filePath)) \<and>
                (InvalidateOk st \<longrightarrow>
                   GetFileSummary (InvalidateFileSummary st (absPathOf E filePath))
                     (absPathOf E filePath) = None) \<and>
                \<not> FromCache r \<and>
                (\<not> hasAssistantMessages E filePath \<longrightarrow>
                   MissReason r = ''no_assistant_messages'' \<and> fileEntries r = [] \<and>
                   fileRawEntries r = [] \<and> Error r = None) \<and>
                (hasAssistantMessages E filePath \<longrightarrow>
                   MissReason r = (if InvalidateOk st then ''new_file'' else ''modified_file'') \<and>
                   ((fileEntries r, fileRawEntries r, Error r), dd') =
                     processSingleFileWithDedup E filePath cutoffTime (IncludeRaw opts) dd
                       (Some (opts\<lparr>CacheStore :=
                                     Some (InvalidateFileSummary st (absPathOf E filePath))\<rparr>))))))"
  using assms
  by (auto simp: processSingleFileWithCacheAndDedup_def processAfterMiss_def
        processUncached_def IsExpired_def Let_def GetFileSummary_def InvalidateFileSummary_def
      split: prod.splits option.splits)

text \<open>With a store whose invalidation succeeds, no file is ever classified \<open>modified_file\<close>.\<close>

lemma never_modified_file:
  assumes "CacheStore opts = Some st" and "InvalidateOk st"
  shows "MissReason (fst (processSingleFileWithCacheAndDedup E filePath opts cutoffTime dd))
           \<noteq> ''modified_file''"
  using assms
  by (auto simp: processSingleFileWithCacheAndDedup_def processAfterMiss_def
        processUncached_def processSingleFile_def Let_def GetFileSummary_def
        InvalidateFileSummary_def
      split: prod.splits option.splits)

text \<open>
  On file \<open>c\<close>, whose stored summary is outdated and which holds no usage record, the miss
  is classified \<open>no_assistant_messages\<close>: that check runs before the miss reason is
  determined.
\<close>

lemma no_assistant_messages_comes_first:
  "os_Stat (sampleEnv 0 sampleFiles) ''c'' = Some (7, 1) \<and>
   GetFileSummary sampleStore (absPathOf (sampleEnv 0 sampleFiles) ''c'') =
     Some (sampleSummary ''c'' 1 1 []) \<and>
   MissReason (fst (processSingleFileWithCacheAndDedup (sampleEnv 0 sampleFiles) ''c''
                     (sampleOptions True (Some sampleStore)) None None))
     = ''no_assistant_messages''"
  by (simp add: load_eval sampleStore_def sampleSummary_def emptyStore_def)

text \<open>
  C5. The claim is that a file whose stored summary no longer matches its (modTime, size) has
  the summary invalidated and the miss classified \<open>modified_file\<close>. Evaluated on file \<open>b\<close>
  of the sample, which holds a usage record and whose stored summary is outdated: the
  summary is invalidated, and the second lookup of the wrapper, which runs after the
  invalidation, finds nothing, so the miss is classified \<open>new_file\<close>; the load over the
  sample files counts one new file and no modified file.
\<close>

theorem modified_file_counted_as_new_file:
  "CacheStore (sampleOptions True (Some sampleStore)) = Some sampleStore \<and>
   InvalidateOk sampleStore \<and>
   os_Stat (sampleEnv 0 sampleFiles) ''b'' = Some (6, 2) \<and>
   GetFileSummary sampleStore (absPathOf (sampleEnv 0 sampleFiles) ''b'') =
     Some (sampleSummary ''b'' 1 2 []) \<and>
   ModTime (sampleSummary ''b'' 1 2 []) \<noteq> 6 \<and>
   hasAssistantMessages (sampleEnv 0 sampleFiles) ''b'' \<and>
   fst (snd (processSingleFileWithCacheAndDedup (sampleEnv 0 sampleFiles) ''b''
               (sampleOptions True (Some sampleStore)) None None)) =
     Some (InvalidateFileSummary sampleStore ''b'') \<and>
   MissReason (fst (processSingleFileWithCacheAndDedup (sampleEnv 0 sampleFiles) ''b''
                     (sampleOptions True (Some sampleStore)) None None)) = ''new_file'' \<and>
   (\<exists>res st.
      LoadUsageEntries (sampleEnv 0 sampleFiles) (sampleOptions True (Some sampleStore))
        = (Inr res, st) \<and>
      Hits (CacheStats (Metadata res)) = 1 \<and>
      NewFiles (CacheStats (Metadata res)) = 1 \<and>
      NoAssistantMessages (CacheStats (Metadata res)) = 1 \<and>
      ModifiedFiles (CacheStats (Metadata res)) = 0)"
  by (simp add: load_eval sampleStore_def sampleSummary_def emptyStore_def)

section \<open>The session-window tracker\<close>

lemma inWindow_markFile:
  "inWindow (markFile E ab tr f) p \<longleftrightarrow> inWindow tr p \<or> (p = f \<and> marked E ab f)"
  by (auto simp: inWindow_def markFile_def marked_def split: option.splits prod.splits)

lemma inWindow_foldl_markFile:
  "inWindow (foldl (markFile E ab) tr fs) p \<longleftrightarrow> inWindow tr p \<or> (p \<in> set fs \<and> marked E ab p)"
  by (induction fs arbitrary: tr) (auto simp: inWindow_markFile)

lemma inWindow_cleared:
  "\<not> inWindow (\<lambda>p. map_option (\<lambda>tracker. tracker\<lparr>InSessionWindow := False\<rparr>) (tr p)) q"
  by (simp add: inWindow_def split: option.splits)

lemma updateSessionWindowFiles_inWindow:
  assumes "DiscoverFiles E (dataPath dm) = Inr files"
  shows
    "inWindow (activeSessionFiles (updateSessionWindowFiles E dm blocks)) p \<longleftrightarrow>
       p \<in> set files \<and>
       (\<exists>modTime fileSize block.
          os_Stat E p = Some (modTime, fileSize) \<and> block \<in> set blocks \<and>
          (IsActive block \<or> time_Now E - EndTime block < 5 * 3600000000000) \<and>
          StartTime block < modTime \<and> modTime < EndTime block + 30 * 60000000000)"
  using assms
  apply (simp add: updateSessionWindowFiles_def Let_def inWindow_foldl_markFile)
  apply (simp add: inWindow_def marked_def list_ex_iff isActiveBlock_def modTimeInWindow_def
      fiveHours_def thirtyMinutes_def split: option.splits)
  done

text \<open>
  C7 (amended). \<^verbatim>\<open>updateSessionWindowFiles\<close> recomputes the in-window flags from nothing:
  after it, a path has its flag set if and only if it is one of the discovered files, its
  stat succeeds, and its modification time lies strictly after the start and strictly
  before the end plus 30 minutes of some block that is active (flag set, or ended less than
  five hours before now); when the discovery fails no flag is set. A file modified 31
  minutes after the end of the only block is not in the window.
\<close>

theorem updateSessionWindowFiles_marks:
  "(DiscoverFiles E (dataPath dm) = Inr files \<longrightarrow>
      (inWindow (activeSessionFiles (updateSessionWindowFiles E dm blocks)) p \<longleftrightarrow>
         p \<in> set files \<and>
         (\<exists>modTime fileSize block.
            os_Stat E p = Some (modTime, fileSize) \<and> block \<in> set blocks \<and>
            (IsActive block \<or> time_Now E - EndTime block < 5 * 3600000000000) \<and>
            StartTime block < modTime \<and> modTime < EndTime block + 30 * 60000000000))) \<and>
   (\<forall>err. DiscoverFiles E (dataPath dm) = Inl err \<longrightarrow>
      \<not> inWindow (activeSessionFiles (updateSessionWindowFiles E dm blocks)) p) \<and>
   (DiscoverFiles E (dataPath dm) = Inr files \<longrightarrow>
      os_Stat E p = Some (EndTime block + 31 * 60000000000, fileSize) \<longrightarrow>
      \<not> inWindow (activeSessionFiles (updateSessionWindowFiles E dm [block])) p)"
proof (intro conjI impI allI)
  assume "DiscoverFiles E (dataPath dm) = Inr files"
  then show "inWindow (activeSessionFiles (updateSessionWindowFiles E dm blocks)) p \<longleftrightarrow>
         p \<in> set files \<and>
         (\<exists>modTime fileSize block.
            os_Stat E p = Some (modTime, fileSize) \<and> block \<in> set blocks \<and>
            (IsActive block \<or> time_Now E - EndTime block < 5 * 3600000000000) \<and>
            StartTime block < modTime \<and> modTime < EndTime block + 30 * 60000000000)"
    by (rule updateSessionWindowFiles_inWindow)
next
  fix err
  assume "DiscoverFiles E (dataPath dm) = Inl err"
  then show "\<not> inWindow (activeSessionFiles (updateSessionWindowFiles E dm blocks)) p"
    by (simp add: updateSessionWindowFiles_def Let_def inWindow_cleared)
next
  assume d: "DiscoverFiles E (dataPath dm) = Inr files"
    and s: "os_Stat E p = Some (EndTime block + 31 * 60000000000, fileSize)"
  show "\<not> inWindow (activeSessionFiles (updateSessionWindowFiles E dm [block])) p"
    using s by (simp add: updateSessionWindowFiles_inWindow[OF d])
qed

theorem updateSessionWindowFiles_marks_witness:
  "DiscoverFiles (sampleEnv 0 sampleFiles) (dataPath (sampleManager None))
     = Inr [''a'', ''b'', ''c''] \<and>
   os_Stat (sampleEnv 0 sampleFiles) ''b'' = Some (6, 2) \<and>
   inWindow (activeSessionFiles
      (updateSessionWindowFiles (sampleEnv 0 sampleFiles) (sampleManager None)
         [sampleBlock 5 10])) ''b'' \<and>
   os_Stat (sampleEnv 0 sampleFiles) ''c'' =
     Some (EndTime (sampleBlock 0 (7 - 31 * 60000000000)) + 31 * 60000000000, 1) \<and>
   \<not> inWindow (activeSessionFiles
      (updateSessionWindowFiles (sampleEnv 0 sampleFiles) (sampleManager None)
         [sampleBlock 0 (7 - 31 * 60000000000)])) ''c''"
  using updateSessionWindowFiles_marks
          [of "sampleEnv 0 sampleFiles" "sampleManager None" "[''a'', ''b'', ''c'']"
              "[sampleBlock 5 10]" "''b''" "sampleBlock 0 (7 - 31 * 60000000000)" 1]
        updateSessionWindowFiles_marks
          [of "sampleEnv 0 sampleFiles" "sampleManager None" "[''a'', ''b'', ''c'']"
              "[sampleBlock 5 10]" "''c''" "sampleBlock 0 (7 - 31 * 60000000000)" 1]
  by (simp add: load_eval manager_eval sampleBlock_def inWindow_def)

text \<open>
  The claim as stated, with the closed interval, fails on file \<open>a\<close>: it was modified exactly
  at the start of the active block and is not marked.
\<close>

theorem closed_interval_counterexample:
  "DiscoverFiles (sampleEnv 0 sampleFiles) (dataPath (sampleManager None))
     = Inr [''a'', ''b'', ''c''] \<and>
   os_Stat (sampleEnv 0 sampleFiles) ''a'' = Some (5, 1) \<and>
   IsActive (sampleBlock 5 10) \<and>
   StartTime (sampleBlock 5 10) \<le> 5 \<and> 5 \<le> EndTime (sampleBlock 5 10) + 30 * 60000000000 \<and>
   \<not> inWindow (activeSessionFiles
      (updateSessionWindowFiles (sampleEnv 0 sampleFiles) (sampleManager None)
         [sampleBlock 5 10])) ''a''"
  by (simp add: load_eval manager_eval sampleBlock_def inWindow_def)


section \<open>Forced refresh: three attempts, then the published result\<close>

lemma watchLoop_ok:
  "attempt < 3 \<Longrightarrow> analyzeUsageWatchMode (Es attempt) dm = ((d, None), dm') \<Longrightarrow>
   watchLoop Es attempt dm sl = ((d, None), publish (Es attempt) d dm', sl)"
  by (subst watchLoop.simps) (simp add: maxRetries_def)

lemma watchLoop_fail:
  "attempt < 2 \<Longrightarrow> analyzeUsageWatchMode (Es attempt) dm = ((d, Some err), dm') \<Longrightarrow>
   watchLoop Es attempt dm sl =
     watchLoop Es (attempt + 1) (dm'\<lparr>lastError := Some err\<rparr>) (sl @ [backoff attempt])"
  by (subst watchLoop.simps) (simp add: maxRetries_def)

lemma watchLoop_last:
  "analyzeUsageWatchMode (Es 2) dm = ((d, Some err), dm') \<Longrightarrow>
   watchLoop Es 2 dm sl =
     (case cache dm' of
        Some result \<Rightarrow> ((Some result, None), dm'\<lparr>lastError := Some err\<rparr>, sl)
      | None \<Rightarrow> ((None, Some (''failed to get usage data after 3 attempts: '' @ err)),
                 dm'\<lparr>lastError := Some err\<rparr>, sl))"
  by (subst watchLoop.simps) (simp add: maxRetries_def)

lemma updateSessionWindowFiles_cache:
  "cache (updateSessionWindowFiles E dm blocks) = cache dm"
  by (simp add: updateSessionWindowFiles_def Let_def split: sum.splits)

lemma processUsageData_cache:
  "cache (snd (processUsageData E dm result)) = cache dm"
  by (simp add: processUsageData_def Let_def updateSessionWindowFiles_cache)

lemma analyzeUsageWatchMode_cache:
  "cache (snd (analyzeUsageWatchMode E dm)) = cache dm"
  by (simp add: analyzeUsageWatchMode_def processUsageData_cache split: prod.splits sum.splits)

lemma analyzeUsageWatchMode_shape:
  "snd (fst (analyzeUsageWatchMode E dm)) = None \<Longrightarrow>
   \<exists>data. fst (fst (analyzeUsageWatchMode E dm)) = Some data"
  by (auto simp: analyzeUsageWatchMode_def processUsageData_def Let_def
      split: prod.splits sum.splits if_splits)

lemma attemptState_cache: "cache (attemptState Es dm n) = cache dm"
proof (induction n)
  case 0
  show ?case by simp
next
  case (Suc n)
  have "cache (snd (analyzeUsageWatchMode (Es n) (attemptState Es dm n))) = cache dm"
    by (simp add: analyzeUsageWatchMode_cache Suc.IH)
  then show ?case by (auto split: prod.splits)
qed

lemma backoff_values:
  "backoff 0 = milliseconds 100" "backoff 1 = milliseconds 200"
  "backoff (Suc 0) = milliseconds 200"
  by (simp_all add: backoff_def milliseconds_def)

text \<open>
  C1. A forced refresh after the initial load runs \<^verbatim>\<open>analyzeUsageWatchMode\<close> at most three
  times. If the first attempt succeeds its result is returned without an error and nothing
  is slept; if the first fails and the second succeeds, the second result is returned after
  one sleep of 100 ms; if two fail and the third succeeds, the third result is returned after
  sleeps of 100 ms and 200 ms; if all three fail, the sleeps are the same and the call
  returns the result published before the call, without an error, when there is one, and an
  error without a result only when there is none.
\<close>

theorem GetData_forced_refresh:
  assumes "initialLoadCompleted dm"
  shows
    "(\<not> attemptFails Es dm 0 \<longrightarrow>
        fst (GetData Es dm True) = (fst (attemptResult Es dm 0), None) \<and>
        fst (attemptResult Es dm 0) \<noteq> None \<and>
        snd (snd (GetData Es dm True)) = []) \<and>
     (attemptFails Es dm 0 \<and> \<not> attemptFails Es dm 1 \<longrightarrow>
        fst (GetData Es dm True) = (fst (attemptResult Es dm 1), None) \<and>
        fst (attemptResult Es dm 1) \<noteq> None \<and>
        snd (snd (GetData Es dm True)) = [milliseconds 100]) \<and>
     (attemptFails Es dm 0 \<and> attemptFails Es dm 1 \<and> \<not> attemptFails Es dm 2 \<longrightarrow>
        fst (GetData Es dm True) = (fst (attemptResult Es dm 2), None) \<and>
        fst (attemptResult Es dm 2) \<noteq> None \<and>
        snd (snd (GetData Es dm True)) = [milliseconds 100, milliseconds 200]) \<and>
     (attemptFails Es dm 0 \<and> attemptFails Es dm 1 \<and> attemptFails Es dm 2 \<longrightarrow>
        snd (snd (GetData Es dm True)) = [milliseconds 100, milliseconds 200] \<and>
        (case cache dm of
           Some cached \<Rightarrow> fst (GetData Es dm True) = (Some cached, None)
         | None \<Rightarrow>
             fst (fst (GetData Es dm True)) = None \<and> snd (fst (GetData Es dm True)) \<noteq> None))"
proof -
  have G: "GetData Es dm True = watchLoop Es 0 dm []"
    using assms by (simp add: GetData_def)
  obtain d0 e0 m0 where a0: "analyzeUsageWatchMode (Es 0) dm = ((d0, e0), m0)"
    by (metis prod.exhaust)
  define s1 where "s1 = m0\<lparr>lastError := e0\<rparr>"
  obtain d1 e1 m1 where a1: "analyzeUsageWatchMode (Es 1) s1 = ((d1, e1), m1)"
    by (metis prod.exhaust)
  define s2 where "s2 = m1\<lparr>lastError := e1\<rparr>"
  obtain d2 e2 m2 where a2: "analyzeUsageWatchMode (Es 2) s2 = ((d2, e2), m2)"
    by (metis prod.exhaust)
  have st1: "attemptState Es dm 1 = s1"
    using a0 by (simp add: s1_def)
  have st2: "attemptState Es dm 2 = s2"
    using a0 a1 st1 by (simp add: s2_def numeral_2_eq_2 s1_def)
  have r0: "attemptResult Es dm 0 = (d0, e0)" using a0 by (simp add: attemptResult_def)
  have r1: "attemptResult Es dm 1 = (d1, e1)" using a1 st1 by (simp add: attemptResult_def)
  have r2: "attemptResult Es dm 2 = (d2, e2)" using a2 st2 by (simp add: attemptResult_def)
  have n0: "e0 = None \<Longrightarrow> d0 \<noteq> None"
    using analyzeUsageWatchMode_shape[of "Es 0" dm] a0 by auto
  have n1: "e1 = None \<Longrightarrow> d1 \<noteq> None"
    using analyzeUsageWatchMode_shape[of "Es 1" s1] a1 by auto
  have n2: "e2 = None \<Longrightarrow> d2 \<noteq> None"
    using analyzeUsageWatchMode_shape[of "Es 2" s2] a2 by auto
  have c2: "cache m2 = cache dm"
    using analyzeUsageWatchMode_cache[of "Es 2" s2] a2 attemptState_cache[of Es dm 2] st2
    by simp
  show ?thesis
  proof (cases e0)
    case None
    with watchLoop_ok[of 0 Es dm d0 m0 "[]"] a0 G r0 n0 show ?thesis
      by (simp add: attemptFails_def)
  next
    case (Some x0)
    with watchLoop_fail[of 0 Es dm d0 x0 m0 "[]"] a0 G
    have G1: "GetData Es dm True = watchLoop Es 1 s1 [milliseconds 100]"
      by (simp add: s1_def backoff_values)
    show ?thesis
    proof (cases e1)
      case None
      with watchLoop_ok[of 1 Es s1 d1 m1 "[milliseconds 100]"] a1 G1 r0 r1 n1 Some show ?thesis
        by (simp add: attemptFails_def)
    next
      case (Some x1)
      with watchLoop_fail[of 1 Es s1 d1 x1 m1 "[milliseconds 100]"] a1 G1
      have G2: "GetData Es dm True = watchLoop Es 2 s2 [milliseconds 100, milliseconds 200]"
        by (simp add: s2_def backoff_values numeral_2_eq_2)
      show ?thesis
      proof (cases e2)
        case None
        with watchLoop_ok[of 2 Es s2 d2 m2 "[milliseconds 100, milliseconds 200]"]
          a2 G2 r0 r1 r2 n2 \<open>e0 = Some x0\<close> \<open>e1 = Some x1\<close> show ?thesis
          by (simp add: attemptFails_def)
      next
        case (Some x2)
        with watchLoop_last[of Es s2 d2 x2 m2 "[milliseconds 100, milliseconds 200]"]
          a2 G2 r0 r1 r2 c2 \<open>e0 = Some x0\<close> \<open>e1 = Some x1\<close> show ?thesis
          by (simp add: attemptFails_def split: option.splits)
      qed
    qed
  qed
qed

theorem GetData_forced_refresh_witness:
  "initialLoadCompleted (sampleManager None) \<and>
   attemptFails sampleAttempts (sampleManager None) 0 \<and>
   attemptFails sampleAttempts (sampleManager None) 1 \<and>
   \<not> attemptFails sampleAttempts (sampleManager None) 2 \<and>
   (\<exists>data. fst (GetData sampleAttempts (sampleManager None) True) = (Some data, None)) \<and>
   snd (snd (GetData sampleAttempts (sampleManager None) True))
     = [milliseconds 100, milliseconds 200] \<and>
   attemptFails (\<lambda>n. sampleEnv 0 []) ((sampleManager None)\<lparr>cache := Some sampleResult\<rparr>) 2 \<and>
   fst (GetData (\<lambda>n. sampleEnv 0 []) ((sampleManager None)\<lparr>cache := Some sampleResult\<rparr>) True)
     = (Some sampleResult, None) \<and>
   fst (fst (GetData (\<lambda>n. sampleEnv 0 []) (sampleManager None) True)) = None \<and>
   snd (fst (GetData (\<lambda>n. sampleEnv 0 []) (sampleManager None) True)) \<noteq> None"
proof -
  have i: "initialLoadCompleted (sampleManager None)"
    "initialLoadCompleted ((sampleManager None)\<lparr>cache := Some sampleResult\<rparr>)"
    by (simp_all add: sampleManager_def)
  have f: "attemptFails sampleAttempts (sampleManager None) 0"
    "attemptFails sampleAttempts (sampleManager None) 1"
    "\<not> attemptFails sampleAttempts (sampleManager None) 2"
    by (simp_all add: attemptFails_def attemptResult_def sampleAttempts_def numeral_2_eq_2
        load_eval manager_eval)
  have g: "attemptFails (\<lambda>n. sampleEnv 0 []) ((sampleManager None)\<lparr>cache := Some sampleResult\<rparr>) 0"
    "attemptFails (\<lambda>n. sampleEnv 0 []) ((sampleManager None)\<lparr>cache := Some sampleResult\<rparr>) 1"
    "attemptFails (\<lambda>n. sampleEnv 0 []) ((sampleManager None)\<lparr>cache := Some sampleResult\<rparr>) 2"
    by (simp_all add: attemptFails_def attemptResult_def numeral_2_eq_2
        load_eval manager_eval)
  have h: "attemptFails (\<lambda>n. sampleEnv 0 []) (sampleManager None) 0"
    "attemptFails (\<lambda>n. sampleEnv 0 []) (sampleManager None) 1"
    "attemptFails (\<lambda>n. sampleEnv 0 []) (sampleManager None) 2"
    by (simp_all add: attemptFails_def attemptResult_def numeral_2_eq_2
        load_eval manager_eval)
  from GetData_forced_refresh[OF i(1), of sampleAttempts] f
  have a: "fst (GetData sampleAttempts (sampleManager None) True)
          = (fst (attemptResult sampleAttempts (sampleManager None) 2), None)"
    "fst (attemptResult sampleAttempts (sampleManager None) 2) \<noteq> None"
    "snd (snd (GetData sampleAttempts (sampleManager None) True))
          = [milliseconds 100, milliseconds 200]"
    by simp_all
  from GetData_forced_refresh[OF i(2), of "\<lambda>n. sampleEnv 0 []"] g
  have b: "fst (GetData (\<lambda>n. sampleEnv 0 [])
                  ((sampleManager None)\<lparr>cache := Some sampleResult\<rparr>) True)
             = (Some sampleResult, None)"
    by simp
  from GetData_forced_refresh[OF i(1), of "\<lambda>n. sampleEnv 0 []"] h
  have c: "fst (fst (GetData (\<lambda>n. sampleEnv 0 []) (sampleManager None) True)) = None"
    "snd (fst (GetData (\<lambda>n. sampleEnv 0 []) (sampleManager None) True)) \<noteq> None"
    by (simp_all add: sampleManager_def)
  from i f g a b c show ?thesis by auto
qed


section \<open>Deduplication: first seen wins\<close>

lemma finishEntry_ids:
  "hasBothIDs (finishEntry E fp opts e) = hasBothIDs e"
  "dedupKey (finishEntry E fp opts e) = dedupKey e"
  "Timestamp (finishEntry E fp opts e) = Timestamp e"
  by (simp_all add: finishEntry_def hasBothIDs_def dedupKey_def)

lemma seenAfter_simps:
  "seenAfter seen [] = seen"
  "seenAfter seen (e # es) =
     (if hasBothIDs e then seenAfter (insert (dedupKey e) seen) es else seenAfter seen es)"
  by (auto simp: seenAfter_def)

lemma seenAfter_append:
  "seenAfter seen (xs @ ys) = seenAfter (seenAfter seen xs) ys"
  by (auto simp: seenAfter_def)

lemma seenAfter_dedupEntries:
  "seenAfter seen (dedupEntries seen es) = seenAfter seen es"
proof (induction es arbitrary: seen)
  case Nil
  show ?case by simp
next
  case (Cons e es)
  show ?case
  proof (cases "hasBothIDs e \<and> dedupKey e \<in> seen")
    case True
    then have "insert (dedupKey e) seen = seen" by auto
    with True Cons.IH[of seen] show ?thesis by (simp add: seenAfter_simps)
  next
    case False
    with Cons.IH show ?thesis by (auto simp: seenAfter_simps)
  qed
qed

lemma dedupEntries_append:
  "dedupEntries seen (xs @ ys) = dedupEntries seen xs @ dedupEntries (seenAfter seen xs) ys"
proof (induction xs arbitrary: seen)
  case Nil
  show ?case by (simp add: seenAfter_simps)
next
  case (Cons x xs)
  show ?case
  proof (cases "hasBothIDs x \<and> dedupKey x \<in> seen")
    case True
    then have "insert (dedupKey x) seen = seen" by auto
    with True Cons.IH[of seen] show ?thesis by (simp add: seenAfter_simps)
  next
    case False
    with Cons.IH show ?thesis by (auto simp: seenAfter_simps)
  qed
qed

text \<open>One line of the scanner loop with a deduplication set.\<close>

lemma scanLine_dedup:
  "scanLine E fp c raw opts (es, rs, Some seen) l =
     (es @ dedupEntries seen (map (finishEntry E fp opts) (lineCandidate c l)),
      rs @ (if raw then lineRaw l else []),
      Some (seenAfter seen (map (finishEntry E fp opts) (lineCandidate c l))))"
  by (cases "(c, l)" rule: lineCandidate.cases)
     (auto simp: Let_def seenAfter_simps finishEntry_ids insert_absorb)

lemma foldl_scanLine_dedup:
  "foldl (scanLine E fp c raw opts) (es, rs, Some seen) ls =
     (es @ dedupEntries seen (map (finishEntry E fp opts) (concat (map (lineCandidate c) ls))),
      rs @ (if raw then concat (map lineRaw ls) else []),
      Some (seenAfter seen (map (finishEntry E fp opts) (concat (map (lineCandidate c) ls)))))"
proof (induction ls arbitrary: es rs seen)
  case Nil
  show ?case by (simp add: seenAfter_simps)
next
  case (Cons l ls)
  show ?case
    by (simp only: foldl_Cons scanLine_dedup Cons.IH)
       (simp add: dedupEntries_append seenAfter_append)
qed


lemma finishEntry_CacheStore:
  "finishEntry E fp (Some (opts\<lparr>CacheStore := x\<rparr>)) = finishEntry E fp (Some opts)"
  by (intro ext) (simp add: finishEntry_def entryCost_def)

lemma fileCandidates_CacheStore:
  "fileCandidates E (opts\<lparr>CacheStore := x\<rparr>) c fp = fileCandidates E opts c fp"
  by (simp add: fileCandidates_def finishEntry_CacheStore split: sum.splits prod.splits)

lemma processSingleFileWithDedup_dedup:
  assumes "\<forall>ls e. os_Open E fp \<noteq> Inr (ls, Some e)"
  shows "fst (fst (processSingleFileWithDedup E fp c raw (Some seen) (Some opts)))
           = dedupEntries seen (fileCandidates E opts c fp)"
    and "snd (processSingleFileWithDedup E fp c raw (Some seen) (Some opts))
           = Some (seenAfter seen (fileCandidates E opts c fp))"
  using assms
  by (auto simp: processSingleFileWithDedup_def fileCandidates_def foldl_scanLine_dedup
        seenAfter_simps
      split: sum.splits option.splits prod.splits)

lemma processUncached_dedup:
  assumes "\<forall>ls e. os_Open E fp \<noteq> Inr (ls, Some e)"
  shows "fileEntries (fst (processUncached E fp (opts\<lparr>CacheStore := None\<rparr>) c (Some seen)))
           = dedupEntries seen (fileCandidates E opts c fp)"
    and "snd (processUncached E fp (opts\<lparr>CacheStore := None\<rparr>) c (Some seen))
           = Some (seenAfter seen (fileCandidates E opts c fp))"
    and "Error (fst (processUncached E fp (opts\<lparr>CacheStore := None\<rparr>) c (Some seen))) \<noteq> None
           \<Longrightarrow> fileCandidates E opts c fp = []"
proof -
  let ?r = "processSingleFileWithDedup E fp c (IncludeRaw opts) (Some seen)
              (Some (opts\<lparr>CacheStore := None\<rparr>))"
  have a: "fst (fst ?r) = dedupEntries seen (fileCandidates E opts c fp)"
    using processSingleFileWithDedup_dedup(1)[OF assms, of c "IncludeRaw opts" seen
        "opts\<lparr>CacheStore := None\<rparr>"]
    by (simp add: fileCandidates_CacheStore)
  have b: "snd ?r = Some (seenAfter seen (fileCandidates E opts c fp))"
    using processSingleFileWithDedup_dedup(2)[OF assms, of c "IncludeRaw opts" seen
        "opts\<lparr>CacheStore := None\<rparr>"]
    by (simp add: fileCandidates_CacheStore)
  show "fileEntries (fst (processUncached E fp (opts\<lparr>CacheStore := None\<rparr>) c (Some seen)))
           = dedupEntries seen (fileCandidates E opts c fp)"
    using a by (auto simp: processUncached_def Let_def split: prod.splits option.splits)
  show "snd (processUncached E fp (opts\<lparr>CacheStore := None\<rparr>) c (Some seen))
           = Some (seenAfter seen (fileCandidates E opts c fp))"
    using b by (auto simp: processUncached_def Let_def split: prod.splits option.splits)
  show "Error (fst (processUncached E fp (opts\<lparr>CacheStore := None\<rparr>) c (Some seen))) \<noteq> None
           \<Longrightarrow> fileCandidates E opts c fp = []"
    using assms
    by (auto simp: processUncached_def Let_def processSingleFileWithDedup_def fileCandidates_def
        split: prod.splits option.splits sum.splits)
qed

lemma sequentialStep_dedup:
  assumes "\<forall>ls e. os_Open E fp \<noteq> Inr (ls, Some e)"
    and "store S = None" and "deduplicationSet S = Some seen"
  shows "allEntries (sequentialStep E opts c S fp)
           = allEntries S @ dedupEntries seen (fileCandidates E opts c fp)"
    and "deduplicationSet (sequentialStep E opts c S fp)
           = Some (seenAfter seen (fileCandidates E opts c fp))"
    and "store (sequentialStep E opts c S fp) = None"
  using assms(2,3) processUncached_dedup[OF assms(1), of opts c seen]
  by (auto simp: sequentialStep_def processSingleFileWithCacheAndDedup_def Let_def
        countResult_fields collectSummary_fields
      split: prod.splits option.splits)


lemma foldl_sequentialStep_dedup:
  assumes "\<forall>f \<in> set fs. \<forall>ls e. os_Open E f \<noteq> Inr (ls, Some e)"
    and "store S = None" and "deduplicationSet S = Some seen"
  shows "allEntries (foldl (sequentialStep E opts c) S fs)
           = allEntries S @ dedupEntries seen (concat (map (fileCandidates E opts c) fs))"
  using assms
proof (induction fs arbitrary: S seen)
  case Nil
  show ?case by simp
next
  case (Cons f fs)
  from Cons.prems(1) have f: "\<forall>ls e. os_Open E f \<noteq> Inr (ls, Some e)" by simp
  from Cons.prems(1) have fs: "\<forall>f \<in> set fs. \<forall>ls e. os_Open E f \<noteq> Inr (ls, Some e)" by simp
  note step = sequentialStep_dedup[OF f Cons.prems(2) Cons.prems(3), of opts c]
  from Cons.IH[OF fs step(3) step(2)] step(1)
  show ?case by (simp add: dedupEntries_append)
qed

lemma loadSequential_dedup:
  assumes "\<forall>f \<in> set files. \<forall>ls e. os_Open E f \<noteq> Inr (ls, Some e)"
    and "EnableDeduplication opts" and "CacheStore opts = None"
  shows "allEntries (loadSequential E opts files) = dedupEntries {} (loadCandidates E opts files)"
  using foldl_sequentialStep_dedup[OF assms(1), of "initialLoadState opts" "{}" opts
          "cutoffTimeOf E opts"] assms(2,3)
  by (simp add: loadSequential_def loadCandidates_def initialLoadState_def)

lemma filter_sameKey_dedupEntries:
  "filter (sameKey k) (dedupEntries seen es) =
     (if k \<in> seen then [] else take 1 (filter (sameKey k) es))"
  by (induction es arbitrary: seen) (auto simp: sameKey_def)

lemma filter_noIDs_dedupEntries:
  "filter (\<lambda>e. \<not> hasBothIDs e) (dedupEntries seen es) = filter (\<lambda>e. \<not> hasBothIDs e) es"
  by (induction es arbitrary: seen) auto

lemma sort_key_take1: "sort_key f (take (Suc 0) xs) = take (Suc 0) xs"
  by (cases xs) simp_all

text \<open>
  Where the loop deduplicates as intended: in a load through the sequential loop with
  deduplication enabled, no cache store, and no file whose scanner ends in an error, of the
  entries that reach the deduplication check (the usage entries not older than the cutoff,
  in file order) that carry both IDs and share a key, exactly the first one is in the
  result, for every key; the entries that lack an ID are all in the result; and the load
  starts from the empty seen set.
\<close>

lemma dedup_first_seen_wins:
  assumes "DiscoverFiles E (DataPath opts) = Inr files" and "length files \<le> 10"
    and "EnableDeduplication opts" and "CacheStore opts = None"
    and "\<forall>f \<in> set files. \<forall>ls e. os_Open E f \<noteq> Inr (ls, Some e)"
    and "LoadUsageEntries E opts = (Inr res, st)"
  shows "filter (sameKey k) (Entries res) = take 1 (filter (sameKey k) (loadCandidates E opts files)) \<and>
         mset (filter (\<lambda>e. \<not> hasBothIDs e) (Entries res)) =
           mset (filter (\<lambda>e. \<not> hasBothIDs e) (loadCandidates E opts files)) \<and>
         deduplicationSet (initialLoadState opts) = Some {}"
proof -
  from assms(1,2,6) have res: "res = fst (finishLoad files (loadSequential E opts files))"
    by (auto simp: LoadUsageEntries_def split: prod.splits)
  have ent: "Entries res = sort_key Timestamp (dedupEntries {} (loadCandidates E opts files))"
    using res loadSequential_dedup[OF assms(5,3,4)] by (simp add: finishLoad_def Let_def)
  have a: "filter (sameKey k) (Entries res) = take 1 (filter (sameKey k) (loadCandidates E opts files))"
    by (simp add: ent filter_sort filter_sameKey_dedupEntries sort_key_take1)
  have b: "mset (filter (\<lambda>e. \<not> hasBothIDs e) (Entries res)) =
           mset (filter (\<lambda>e. \<not> hasBothIDs e) (loadCandidates E opts files))"
    by (simp add: ent filter_sort filter_noIDs_dedupEntries)
  from a b assms(3) show ?thesis by (simp add: initialLoadState_def)
qed

text \<open>
  The key is the text \<open>messageID:requestID\<close>, so different ID pairs can share a key: here
  the records of files \<open>b\<close> and \<open>c\<close> are dropped because the record of file \<open>a\<close>, with
  other IDs, has the same key.
\<close>

lemma same_key_collision:
  "\<exists>res st.
     LoadUsageEntries (sampleEnv 0 sampleCollisionFiles) (sampleOptions True None)
       = (Inr res, st) \<and>
     os_Open (sampleEnv 0 sampleCollisionFiles) ''a'' =
       Inr ([Object ''ra'' (Some (sampleEntry 1 ''m:x'' ''r''))], None) \<and>
     os_Open (sampleEnv 0 sampleCollisionFiles) ''b'' =
       Inr ([Object ''rb'' (Some (sampleEntry 2 ''m'' ''x:r''))], None) \<and>
     os_Open (sampleEnv 0 sampleCollisionFiles) ''c'' =
       Inr ([Object ''rc'' (Some (sampleEntry 3 ''m'' ''x:r''))], None) \<and>
     map MessageID (Entries res) = [''m:x''] \<and>
     filter (\<lambda>e. MessageID e = ''m'' \<and> RequestID e = ''x:r'') (Entries res) = []"
  by (simp add: load_eval sampleCollisionFiles_def)

text \<open>
  C3. The claim is that of the entries that carry the same non-empty message ID and request
  ID exactly one survives a load with deduplication, the one met first. Evaluated on two
  files, where reading \<open>a\<close> fails after its record and \<open>b\<close> repeats that record's IDs:
  \<^verbatim>\<open>LoadUsageEntries\<close> takes the sequential loop, which has put the key of the discarded
  record of \<open>a\<close> in the seen set when it reaches \<open>b\<close>; no entry with these IDs is in the
  result.
\<close>

theorem duplicate_lost_after_scan_error:
  "EnableDeduplication (sampleOptions True None) \<and>
   DiscoverFiles sampleBrokenEnv (DataPath (sampleOptions True None)) = Inr [''a'', ''b''] \<and>
   os_Open sampleBrokenEnv ''a'' =
     Inr ([Object ''ra'' (Some (sampleEntry 9 ''m1'' ''r1''))],
          Some ''bufio.Scanner: token too long'') \<and>
   os_Open sampleBrokenEnv ''b'' =
     Inr ([Object ''rb'' (Some (sampleEntry 3 ''m1'' ''r1'')),
           Object ''rc'' (Some (sampleEntry 4 [] ''r7''))], None) \<and>
   (\<exists>res st.
      LoadUsageEntries sampleBrokenEnv (sampleOptions True None) = (Inr res, st) \<and>
      ProcessingErrors (Metadata res) =
        [''a: error reading file: bufio.Scanner: token too long''] \<and>
      map Timestamp (Entries res) = [4] \<and>
      filter (\<lambda>e. MessageID e = ''m1'' \<and> RequestID e = ''r1'') (Entries res) = [])"
  by (simp add: load_eval sampleBrokenEnv_def sampleDupFiles_def)

section \<open>Watch mode and the summary store\<close>

text \<open>
  C2. The claim is that a watch-mode load leaves the stored summaries as they are. Evaluated
  on the sample files with an empty store: \<^verbatim>\<open>analyzeUsageWatchMode\<close>, and a forced
  \<^verbatim>\<open>GetData\<close> after the initial load, leave a store that holds a summary of file \<open>a\<close>,
  written by the batch write at the end of \<^verbatim>\<open>LoadUsageEntries\<close>.
\<close>

theorem watch_mode_writes_summaries:
  "initialLoadCompleted (sampleManager (Some emptyStore)) \<and>
   summaries emptyStore ''a'' = None \<and>
   (\<exists>st s. cacheStore (snd (analyzeUsageWatchMode (sampleEnv 0 sampleFiles)
                               (sampleManager (Some emptyStore)))) = Some st \<and>
           summaries st ''a'' = Some s \<and> Path s = ''a'') \<and>
   (\<exists>st s. cacheStore (fst (snd (GetData (\<lambda>n. sampleEnv 0 sampleFiles)
                                    (sampleManager (Some emptyStore)) True))) = Some st \<and>
           summaries st ''a'' = Some s \<and> Path s = ''a'')"
  by (simp add: GetData_def watchLoop.simps[of _ 0] maxRetries_def publish_def
        load_eval manager_eval emptyStore_def)

section \<open>The sequential loop against the concurrent loader of the spec\<close>

text \<open>
  C8. The claim is that the sequential loop and the concurrent loader return the same
  results on the same files. Evaluated with deduplication on two files, where reading \<open>a\<close>
  fails after its record and \<open>b\<close> repeats that record's IDs: the sequential loop has put the
  key of the discarded record in the seen set and drops the record of \<open>b\<close>; the loader and
  merger of the spec keep it.
\<close>

theorem sequential_and_concurrent_differ:
  "os_Open sampleBrokenEnv ''a'' =
     Inr ([Object ''ra'' (Some (sampleEntry 9 ''m1'' ''r1''))],
          Some ''bufio.Scanner: token too long'') \<and>
   os_Open sampleBrokenEnv ''b'' =
     Inr ([Object ''rb'' (Some (sampleEntry 3 ''m1'' ''r1'')),
           Object ''rc'' (Some (sampleEntry 4 [] ''r7''))], None) \<and>
   map Timestamp
     (Entries (fst (finishLoad [''a'', ''b'']
        (loadSequential sampleBrokenEnv (sampleOptions True None) [''a'', ''b''])))) = [4] \<and>
   (\<exists>S. loadConcurrent sampleBrokenEnv (sampleOptions True None) [''a'', ''b''] = Inr S \<and>
        map Timestamp (Entries (fst (finishLoad [''a'', ''b''] S))) = [3, 4])"
  by (simp add: loadConcurrent_def specLoadFilesWithProgress_def
        processSingleFileWithCacheWithReason_def specMergeResults_def
        specMergeResultsWithDedup_def succeeded_def resultErrors_def concurrentStat_def
        sampleBrokenEnv_def sampleDupFiles_def load_eval)

end
